theory Spec2Isabelle
  imports Main "HOL-Library.Sublist"
begin

section \<open>The analytics integration of the BrainMatch game\<close>

text \<open>
  The script \<^verbatim>\<open>analytics-integration.js\<close> replaces eight operations of the host page
  (\<^verbatim>\<open>window.startGame\<close>, \<^verbatim>\<open>window.startReflexMode\<close>, \<^verbatim>\<open>window.handleCorrectMatch\<close>,
  \<^verbatim>\<open>window.handleIncorrectMatch\<close>, \<^verbatim>\<open>window.handleCampaignWin\<close>,
  \<^verbatim>\<open>window.handleReflexModeEnd\<close>, \<^verbatim>\<open>window.startTimer\<close> and, from inside the
  timer hook, \<^verbatim>\<open>window.alert\<close>) by wrappers that report to an analytics manager and
  delegate to the operation they replace.

  The embedding is a state-and-exception monad over the variables of the script. Every
  effect that leaves the script (a call of the analytics manager, of the console, of a
  host function, an assignment to a property of \<^verbatim>\<open>window\<close>) is appended to a trace, in
  program order. What the script does not define (the host's operations, the analytics
  manager, the clock) is a parameter.

  Values are the primitive values of JavaScript. Numbers are integers: the clock
  (\<^verbatim>\<open>Date.now()\<close> is a whole number of milliseconds), the turn count and the task counter are,
  and on integers of magnitude up to \<open>2\<^sup>5\<^sup>3\<close> the arithmetic of JavaScript is exact.
  Fractions, \<^verbatim>\<open>NaN\<close>, infinities, objects and symbols as arguments are outside the model.
  A \<^verbatim>\<open>this\<close> value is a primitive value or an object.
\<close>

subsection \<open>Values\<close>

datatype jsval = JUndefined | JNull | JBool bool | JNum int | JStr string

text \<open>A raised exception: the \<^verbatim>\<open>TypeError\<close> of the language (a property read on
  \<^verbatim>\<open>undefined\<close> or \<^verbatim>\<open>null\<close>, a call of a non-function), or a value thrown by code
  outside the script.\<close>

datatype exn = TypeError | Thrown jsval

text \<open>The \<^verbatim>\<open>this\<close> value of a call: a primitive value (\<^verbatim>\<open>undefined\<close> in a plain call
  \<^verbatim>\<open>f(x)\<close>), or an object: the global object, the wrapper object of a primitive value, or
  another object of the host.\<close>

datatype jsthis = Plain jsval | Boxed jsval | GlobalThis | ObjectRef nat

fun digit_char :: "nat \<Rightarrow> char" where
  "digit_char n = (''0123456789'' ! (n mod 10))"

fun string_of_nat :: "nat \<Rightarrow> string" where
  "string_of_nat n =
     (if n < 10 then [digit_char n] else string_of_nat (n div 10) @ [digit_char n])"

declare string_of_nat.simps [simp del]

text \<open>The string JavaScript prints for an integer: its decimal digits up to magnitude
  \<open>2\<^sup>5\<^sup>3\<close>. Beyond, JavaScript prints the shortest digits that denote the same double,
  followed by zeros or, from \<^verbatim>\<open>1e21\<close> on, by an exponent; the embedding leaves that string
  unspecified.\<close>

definition string_of_int :: "int \<Rightarrow> string" where
  "string_of_int i =
     (if abs i \<le> 2 ^ 53
      then (if i < 0 then CHR ''-'' # string_of_nat (nat (- i)) else string_of_nat (nat i))
      else undefined i)"

text \<open>The string a template literal \<^verbatim>\<open>`${v}`\<close> substitutes for a value.\<close>

fun tmpl :: "jsval \<Rightarrow> string" where
  "tmpl JUndefined = ''undefined''"
| "tmpl JNull = ''null''"
| "tmpl (JBool b) = (if b then ''true'' else ''false'')"
| "tmpl (JNum n) = string_of_int n"
| "tmpl (JStr s) = s"

text \<open>\<^verbatim>\<open>v.toString()\<close>: reading the property on \<^verbatim>\<open>undefined\<close> or \<^verbatim>\<open>null\<close> raises.\<close>

fun toString :: "jsval \<Rightarrow> exn + string" where
  "toString JUndefined = Inl TypeError"
| "toString JNull = Inl TypeError"
| "toString v = Inr (tmpl v)"

text \<open>\<^verbatim>\<open>hay.includes(needle)\<close> on strings: some suffix of \<open>hay\<close> starts with \<open>needle\<close>.\<close>

fun str_includes :: "string \<Rightarrow> string \<Rightarrow> bool" where
  "str_includes [] needle = (needle = [])"
| "str_includes (c # cs) needle = (prefix needle (c # cs) \<or> str_includes cs needle)"

text \<open>\<^verbatim>\<open>message.includes(marker)\<close> on a value: only a string has the method.\<close>

fun js_includes :: "jsval \<Rightarrow> string \<Rightarrow> exn + bool" where
  "js_includes (JStr s) marker = Inr (str_includes s marker)"
| "js_includes v marker = Inl TypeError"

definition timeout_marker :: string where
  "timeout_marker = ''Time'' @ [CHR 0x27] @ ''s Up''"

subsection \<open>The host page\<close>

text \<open>A flipped card is a DOM element; the script reads \<^verbatim>\<open>dataset.value\<close> and
  \<^verbatim>\<open>dataset.match\<close> of it, either of which may be absent.\<close>

record card =
  dataset_value :: "string option"
  dataset_match :: "string option"

text \<open>\<^verbatim>\<open>window.gameState\<close>. \<open>flippedCards\<close> is \<open>None\<close> when the property is absent or
  falsy; an entry of the array is \<open>None\<close> when it is not a card element: \<^verbatim>\<open>null\<close> or
  \<^verbatim>\<open>undefined\<close> (reading \<^verbatim>\<open>dataset\<close> of it raises) or an object without \<^verbatim>\<open>dataset\<close> (reading
  \<^verbatim>\<open>dataset.value\<close> of it raises).\<close>

record game_state =
  flippedCards :: "card option list option"
  currentCampaignLevel :: jsval
  turns :: jsval

datatype opname =
    OpStartGame | OpStartReflexMode | OpHandleCorrectMatch | OpHandleIncorrectMatch
  | OpHandleCampaignWin | OpHandleReflexModeEnd | OpStartTimer | OpAlert

datatype calcname = CalculateXP | CalculateCampaignStars | CalculateReflexStars

text \<open>A function of the host, called with a \<^verbatim>\<open>this\<close> value and arguments: it returns
  a value or throws. What it does to the page meanwhile is the host's business; when it
  calls another hooked operation, that call is a call of its own (see \<open>run\<close> below).\<close>

type_synonym host_fn = "jsthis \<Rightarrow> jsval list \<Rightarrow> exn + jsval"

text \<open>The calls the script makes on the analytics manager.\<close>

datatype sink_call =
    NewManager
  | Initialize string string
  | StartLevel jsval
  | RecordTask jsval string string string string int int
  | EndLevel jsval bool int jsval
  | AddRawMetric string string
  | SubmitReport

datatype event =
    Sink sink_call
  | ConsoleLog string
  | ConsoleError string exn
  | OrigCall opname jsthis "jsval list"
  | CalcCall calcname "jsval list"
  | Install opname

text \<open>What a hook finds around it when it runs: the host's game state (\<open>None\<close>: no
  \<^verbatim>\<open>window.gameState\<close>), the optional calculators of the host, whether a call of the
  analytics manager throws (it may depend on everything that happened before), and the
  clock: \<open>clock k\<close> is what the \<open>k\<close>-th evaluation of \<^verbatim>\<open>Date.now()\<close> returns.\<close>

record env =
  gameState :: "game_state option"
  calculators :: "calcname \<Rightarrow> (jsval list \<Rightarrow> exn + jsval) option"
  sink_raises :: "event list \<Rightarrow> sink_call \<Rightarrow> jsval option"
  clock :: "nat \<Rightarrow> int"
  random_suffix :: string

subsection \<open>The state of the script\<close>

text \<open>The value of \<^verbatim>\<open>window.alert\<close>: the host's own function (\<open>None\<close>: undefined), or
  the closure of line 269 around the value \<^verbatim>\<open>window.alert\<close> had when
  \<^verbatim>\<open>window.startTimer\<close> ran (its \<^verbatim>\<open>originalAlert\<close>).\<close>

datatype alert_fn = HostAlert "host_fn option" | AlertWrapper alert_fn

record state =
  levelStartTime :: "int option"
  currentLevelId :: jsval
  taskCounter :: nat
  captured :: "opname \<Rightarrow> host_fn option"
  window_alert :: alert_fn
  trace :: "event list"
  ticks :: nat

type_synonym 'a js = "state \<Rightarrow> (exn + 'a) \<times> state"

definition return :: "'a \<Rightarrow> 'a js" where
  "return x = (\<lambda>s. (Inr x, s))"

definition throw :: "exn \<Rightarrow> 'a js" where
  "throw e = (\<lambda>s. (Inl e, s))"

definition bind :: "'a js \<Rightarrow> ('a \<Rightarrow> 'b js) \<Rightarrow> 'b js" where
  "bind m f = (\<lambda>s. case m s of (Inl e, s') \<Rightarrow> (Inl e, s') | (Inr x, s') \<Rightarrow> f x s')"

definition seq :: "unit js \<Rightarrow> 'b js \<Rightarrow> 'b js" where
  "seq m k = bind m (\<lambda>_. k)"

definition lift :: "exn + 'a \<Rightarrow> 'a js" where
  "lift r = (\<lambda>s. (r, s))"

text \<open>Reading and assigning the variables of the script.\<close>

definition gets :: "(state \<Rightarrow> 'a) \<Rightarrow> 'a js" where
  "gets f = (\<lambda>s. (Inr (f s), s))"

definition modify :: "(state \<Rightarrow> state) \<Rightarrow> unit js" where
  "modify f = (\<lambda>s. (Inr (), f s))"

definition emit :: "event \<Rightarrow> unit js" where
  "emit e = modify (\<lambda>s. s\<lparr>trace := trace s @ [e]\<rparr>)"

definition console_log :: "string \<Rightarrow> unit js" where
  "console_log msg = emit (ConsoleLog msg)"

text \<open>\<^verbatim>\<open>try { body } catch (error) { console.error(label, error); }\<close>\<close>

definition try_catch :: "unit js \<Rightarrow> string \<Rightarrow> unit js" where
  "try_catch body label =
     (\<lambda>s. case body s of
             (Inl e, s') \<Rightarrow> emit (ConsoleError label e) s'
           | (Inr u, s') \<Rightarrow> (Inr (), s'))"

text \<open>A call of the analytics manager: the call is made, and it may throw.\<close>

definition sink :: "env \<Rightarrow> sink_call \<Rightarrow> unit js" where
  "sink env c =
     (\<lambda>s. case sink_raises env (trace s) c of
             Some v \<Rightarrow> (Inl (Thrown v), s\<lparr>trace := trace s @ [Sink c]\<rparr>)
           | None \<Rightarrow> (Inr (), s\<lparr>trace := trace s @ [Sink c]\<rparr>))"

text \<open>\<^verbatim>\<open>Date.now()\<close>\<close>

definition date_now :: "env \<Rightarrow> int js" where
  "date_now env = (\<lambda>s. (Inr (clock env (ticks s)), s\<lparr>ticks := Suc (ticks s)\<rparr>))"

text \<open>\<^verbatim>\<open>Date.now() - levelStartTime\<close>: the subtraction converts its operands to numbers,
  \<^verbatim>\<open>null\<close> to 0.\<close>

definition start0 :: "int option \<Rightarrow> int" where
  "start0 t = (case t of None \<Rightarrow> 0 | Some v \<Rightarrow> v)"

definition elapsed :: "env \<Rightarrow> int js" where
  "elapsed env =
     bind (date_now env) (\<lambda>now.
     bind (gets levelStartTime) (\<lambda>start.
       return (now - start0 start)))"

text \<open>\<^verbatim>\<open>window.gameState.p\<close>: raises when there is no \<^verbatim>\<open>window.gameState\<close>.\<close>

definition read_gameState :: "env \<Rightarrow> game_state js" where
  "read_gameState env = (case gameState env of None \<Rightarrow> throw TypeError | Some gs \<Rightarrow> return gs)"

text \<open>\<^verbatim>\<open>original.call(this, args)\<close>: raises when \<^verbatim>\<open>original\<close> is undefined; otherwise
  the host's function runs, and what it returns or throws is the outcome.\<close>

definition call_original :: "opname \<Rightarrow> host_fn option \<Rightarrow> jsthis \<Rightarrow> jsval list \<Rightarrow> jsval js" where
  "call_original op f this args =
     (case f of
        None \<Rightarrow> throw TypeError
      | Some g \<Rightarrow> (\<lambda>s. (g this args, s\<lparr>trace := trace s @ [OrigCall op this args]\<rparr>)))"

text \<open>\<^verbatim>\<open>let r = 0; if (typeof window.calc === 'function') { r = window.calc(args); }\<close>\<close>

definition optional_calc :: "env \<Rightarrow> calcname \<Rightarrow> jsval list \<Rightarrow> jsval js" where
  "optional_calc env c args =
     (case calculators env c of
        None \<Rightarrow> return (JNum 0)
      | Some g \<Rightarrow> seq (emit (CalcCall c args)) (lift (g args)))"

text \<open>\<^verbatim>\<open>analytics.addRawMetric(key, v.toString())\<close>: the argument is evaluated first.\<close>

definition add_metric_of :: "env \<Rightarrow> string \<Rightarrow> jsval \<Rightarrow> unit js" where
  "add_metric_of env key v = bind (lift (toString v)) (\<lambda>str. sink env (AddRawMetric key str))"

text \<open>\<^verbatim>\<open>x || 'unknown'\<close> on a \<^verbatim>\<open>dataset\<close> entry: absent and empty are both falsy.\<close>

definition or_unknown :: "string option \<Rightarrow> string" where
  "or_unknown x = (case x of None \<Rightarrow> ''unknown'' | Some v \<Rightarrow> if v = [] then ''unknown'' else v)"

subsection \<open>The hooks\<close>

text \<open>Lines 37--58.\<close>

definition startGame_body :: "env \<Rightarrow> jsval \<Rightarrow> unit js" where
  "startGame_body env level =
     seq (modify (\<lambda>s. s\<lparr>currentLevelId := JStr (''campaign_level_'' @ tmpl level)\<rparr>))
    (bind (date_now env) (\<lambda>now.
     seq (modify (\<lambda>s. s\<lparr>levelStartTime := Some now\<rparr>))
    (seq (modify (\<lambda>s. s\<lparr>taskCounter := 0\<rparr>))
    (seq (bind (gets currentLevelId) (\<lambda>lid. sink env (StartLevel lid)))
         (bind (gets currentLevelId) (\<lambda>lid. console_log (''[Analytics] Started Level: '' @ tmpl lid)))))))"

definition startGame_hook :: "env \<Rightarrow> jsthis \<Rightarrow> jsval \<Rightarrow> jsval js" where
  "startGame_hook env this level =
     seq (try_catch (startGame_body env level) ''[Analytics] Error in startGame hook:'')
         (bind (gets captured) (\<lambda>orig. call_original OpStartGame (orig OpStartGame) this [level]))"

text \<open>Lines 65--86.\<close>

definition startReflexMode_body :: "env \<Rightarrow> unit js" where
  "startReflexMode_body env =
     seq (modify (\<lambda>s. s\<lparr>currentLevelId := JStr ''reflex_mode''\<rparr>))
    (bind (date_now env) (\<lambda>now.
     seq (modify (\<lambda>s. s\<lparr>levelStartTime := Some now\<rparr>))
    (seq (modify (\<lambda>s. s\<lparr>taskCounter := 0\<rparr>))
    (seq (bind (gets currentLevelId) (\<lambda>lid. sink env (StartLevel lid)))
         (console_log ''[Analytics] Started Reflex Mode'')))))"

definition startReflexMode_hook :: "env \<Rightarrow> jsthis \<Rightarrow> jsval js" where
  "startReflexMode_hook env this =
     seq (try_catch (startReflexMode_body env) ''[Analytics] Error in startReflexMode hook:'')
         (bind (gets captured) (\<lambda>orig. call_original OpStartReflexMode (orig OpStartReflexMode) this []))"

text \<open>Lines 93--125.\<close>

definition record_correct :: "env \<Rightarrow> card \<Rightarrow> card \<Rightarrow> unit js" where
  "record_correct env card1 card2 =
     (let card1Value = or_unknown (dataset_value card1);
          card2Value = or_unknown (dataset_value card2)
      in seq (modify (\<lambda>s. s\<lparr>taskCounter := Suc (taskCounter s)\<rparr>))
        (seq (bind (gets currentLevelId) (\<lambda>lid. bind (gets taskCounter) (\<lambda>n.
                sink env (RecordTask lid (''task_'' @ string_of_nat n)
                  (''Match: '' @ card1Value) card1Value card2Value 0 0))))
             (console_log (''[Analytics] Task Recorded - Correct Match: '' @ card1Value
                           @ '' = '' @ card2Value))))"

definition handleCorrectMatch_body :: "env \<Rightarrow> unit js" where
  "handleCorrectMatch_body env =
     bind (read_gameState env) (\<lambda>gs.
       case flippedCards gs of
         None \<Rightarrow> return ()
       | Some cards \<Rightarrow>
           (case cards of
              [c1, c2] \<Rightarrow>
                (case (c1, c2) of
                   (Some card1, Some card2) \<Rightarrow> record_correct env card1 card2
                 | _ \<Rightarrow> throw TypeError)
            | _ \<Rightarrow> return ()))"

definition handleCorrectMatch_hook :: "env \<Rightarrow> jsthis \<Rightarrow> jsval js" where
  "handleCorrectMatch_hook env this =
     seq (try_catch (handleCorrectMatch_body env) ''[Analytics] Error in handleCorrectMatch hook:'')
         (bind (gets captured) (\<lambda>orig. call_original OpHandleCorrectMatch (orig OpHandleCorrectMatch) this []))"

text \<open>Lines 132--165.\<close>

definition record_incorrect :: "env \<Rightarrow> card \<Rightarrow> card \<Rightarrow> unit js" where
  "record_incorrect env card1 card2 =
     (let card1Value = or_unknown (dataset_value card1);
          card2Value = or_unknown (dataset_value card2);
          expectedMatch = or_unknown (dataset_match card1)
      in seq (modify (\<lambda>s. s\<lparr>taskCounter := Suc (taskCounter s)\<rparr>))
        (seq (bind (gets currentLevelId) (\<lambda>lid. bind (gets taskCounter) (\<lambda>n.
                sink env (RecordTask lid (''task_'' @ string_of_nat n)
                  (''Match: '' @ card1Value) expectedMatch card2Value 0 0))))
             (console_log (''[Analytics] Task Recorded - Incorrect Match: '' @ card1Value
                           @ '', Expected: '' @ expectedMatch @ '', Got: '' @ card2Value))))"

definition handleIncorrectMatch_body :: "env \<Rightarrow> unit js" where
  "handleIncorrectMatch_body env =
     bind (read_gameState env) (\<lambda>gs.
       case flippedCards gs of
         None \<Rightarrow> return ()
       | Some cards \<Rightarrow>
           (case cards of
              [c1, c2] \<Rightarrow>
                (case (c1, c2) of
                   (Some card1, Some card2) \<Rightarrow> record_incorrect env card1 card2
                 | _ \<Rightarrow> throw TypeError)
            | _ \<Rightarrow> return ()))"

definition handleIncorrectMatch_hook :: "env \<Rightarrow> jsthis \<Rightarrow> jsval js" where
  "handleIncorrectMatch_hook env this =
     seq (try_catch (handleIncorrectMatch_body env)
            ''[Analytics] Error in handleIncorrectMatch hook:'')
         (bind (gets captured) (\<lambda>orig. call_original OpHandleIncorrectMatch (orig OpHandleIncorrectMatch) this []))"

text \<open>Lines 172--214. \<open>campaign_report\<close> is lines 181--207, after the game state and
  the clock were read.\<close>

definition campaign_report :: "env \<Rightarrow> jsval \<Rightarrow> jsval \<Rightarrow> int \<Rightarrow> unit js" where
  "campaign_report env level turns_v duration =
     bind (optional_calc env CalculateXP [level, turns_v]) (\<lambda>xp.
     bind (optional_calc env CalculateCampaignStars [level, turns_v]) (\<lambda>stars.
     seq (bind (gets currentLevelId) (\<lambda>lid. sink env (EndLevel lid True duration xp)))
    (seq (add_metric_of env ''level'' level)
    (seq (add_metric_of env ''turns'' turns_v)
    (seq (add_metric_of env ''xp_earned'' xp)
    (seq (add_metric_of env ''stars'' stars)
    (seq (sink env (AddRawMetric ''mode'' ''campaign''))
    (seq (sink env SubmitReport)
    (seq (bind (gets currentLevelId) (\<lambda>lid.
            console_log (''[Analytics] Completed Level: '' @ tmpl lid
                 @ '', Success: true, Time: '' @ string_of_int duration @ ''ms, XP: ''
                 @ tmpl xp @ '', Stars: '' @ tmpl stars)))
         (console_log ''[Analytics] Report submitted''))))))))))"

definition handleCampaignWin_body :: "env \<Rightarrow> unit js" where
  "handleCampaignWin_body env =
     bind (read_gameState env) (\<lambda>gs.
     bind (elapsed env) (\<lambda>duration.
       campaign_report env (currentCampaignLevel gs) (turns gs) duration))"

definition handleCampaignWin_hook :: "env \<Rightarrow> jsthis \<Rightarrow> jsval js" where
  "handleCampaignWin_hook env this =
     seq (try_catch (handleCampaignWin_body env) ''[Analytics] Error in handleCampaignWin hook:'')
         (bind (gets captured) (\<lambda>orig. call_original OpHandleCampaignWin (orig OpHandleCampaignWin) this []))"

text \<open>Lines 221--254. \<open>reflex_report\<close> is lines 229--247.\<close>

definition reflex_report :: "env \<Rightarrow> jsval \<Rightarrow> int \<Rightarrow> unit js" where
  "reflex_report env turns_v duration =
     bind (optional_calc env CalculateReflexStars [turns_v]) (\<lambda>stars.
     seq (bind (gets currentLevelId) (\<lambda>lid. sink env (EndLevel lid True duration (JNum 0))))
    (seq (add_metric_of env ''moves'' turns_v)
    (seq (add_metric_of env ''stars'' stars)
    (seq (sink env (AddRawMetric ''mode'' ''reflex''))
    (seq (sink env SubmitReport)
    (seq (console_log (''[Analytics] Completed Reflex Mode: Success: true, Time: ''
                 @ string_of_int duration @ ''ms, Moves: '' @ tmpl turns_v
                 @ '', Stars: '' @ tmpl stars))
         (console_log ''[Analytics] Report submitted'')))))))"

definition handleReflexModeEnd_body :: "env \<Rightarrow> unit js" where
  "handleReflexModeEnd_body env =
     bind (read_gameState env) (\<lambda>gs.
     bind (elapsed env) (\<lambda>duration.
       reflex_report env (turns gs) duration))"

definition handleReflexModeEnd_hook :: "env \<Rightarrow> jsthis \<Rightarrow> jsval js" where
  "handleReflexModeEnd_hook env this =
     seq (try_catch (handleReflexModeEnd_body env)
            ''[Analytics] Error in handleReflexModeEnd hook:'')
         (bind (gets captured) (\<lambda>orig. call_original OpHandleReflexModeEnd (orig OpHandleReflexModeEnd) this []))"

text \<open>Lines 269--292: the body of the closure assigned to \<^verbatim>\<open>window.alert\<close>.
  \<open>timeout_report\<close> is lines 274--284.\<close>

definition timeout_report :: "env \<Rightarrow> int \<Rightarrow> unit js" where
  "timeout_report env timeTaken =
     seq (bind (gets currentLevelId) (\<lambda>lid. sink env (EndLevel lid False timeTaken (JNum 0))))
    (seq (sink env (AddRawMetric ''reason'' ''timeout''))
    (seq (bind (read_gameState env) (\<lambda>gs. add_metric_of env ''turns'' (turns gs)))
    (seq (sink env SubmitReport)
    (seq (bind (gets currentLevelId) (\<lambda>lid.
            console_log (''[Analytics] Level Failed: '' @ tmpl lid @ '', Reason: Timeout'')))
         (console_log ''[Analytics] Report submitted'')))))"

definition report_timeout :: "env \<Rightarrow> unit js" where
  "report_timeout env = bind (elapsed env) (\<lambda>timeTaken. timeout_report env timeTaken)"

definition alert_body :: "env \<Rightarrow> jsval \<Rightarrow> unit js" where
  "alert_body env message =
     bind (lift (js_includes message timeout_marker)) (\<lambda>hit.
       if hit then report_timeout env else return ())"

text \<open>Calling the value of \<^verbatim>\<open>window.alert\<close> with one argument and an object as
  \<^verbatim>\<open>this\<close>: the host's function, or a closure of line 269, which delegates to the value it
  captured (\<^verbatim>\<open>originalAlert.call(this, message)\<close>, line 291: the closure below receives the
  same object and the same single argument).\<close>

fun call_alert :: "env \<Rightarrow> alert_fn \<Rightarrow> jsthis \<Rightarrow> jsval \<Rightarrow> jsval js" where
  "call_alert env (HostAlert f) this message = call_original OpAlert f this [message]"
| "call_alert env (AlertWrapper originalAlert) this message =
     seq (try_catch (alert_body env message) ''[Analytics] Error in alert hook:'')
         (call_alert env originalAlert this message)"

text \<open>Lines 261--298: the original runs first; then \<^verbatim>\<open>window.alert\<close> is wrapped. Nothing
  in the \<^verbatim>\<open>try\<close> block can raise.\<close>

definition startTimer_hook :: "env \<Rightarrow> jsthis \<Rightarrow> jsval \<Rightarrow> jsval js" where
  "startTimer_hook env this duration =
     bind (bind (gets captured) (\<lambda>orig. call_original OpStartTimer (orig OpStartTimer) this [duration])) (\<lambda>result.
     seq (try_catch
            (seq (modify (\<lambda>s. s\<lparr>window_alert := AlertWrapper (window_alert s)\<rparr>))
                 (emit (Install OpAlert)))
            ''[Analytics] Error in startTimer hook:'')
         (return result))"

subsection \<open>The wrappers\<close>

text \<open>A wrapper entered with its parameters bound: \<^verbatim>\<open>function(level)\<close> (line 37),
  \<^verbatim>\<open>function()\<close> (lines 65, 93, 132, 172, 221), \<^verbatim>\<open>function(duration)\<close> (line 261),
  \<^verbatim>\<open>function(message)\<close> (line 269).\<close>

datatype activation =
    StartGame jsval | StartReflexMode | HandleCorrectMatch | HandleIncorrectMatch
  | HandleCampaignWin | HandleReflexModeEnd | StartTimer jsval | Alert jsval

fun op_of :: "activation \<Rightarrow> opname" where
  "op_of (StartGame level) = OpStartGame"
| "op_of StartReflexMode = OpStartReflexMode"
| "op_of HandleCorrectMatch = OpHandleCorrectMatch"
| "op_of HandleIncorrectMatch = OpHandleIncorrectMatch"
| "op_of HandleCampaignWin = OpHandleCampaignWin"
| "op_of HandleReflexModeEnd = OpHandleReflexModeEnd"
| "op_of (StartTimer duration) = OpStartTimer"
| "op_of (Alert message) = OpAlert"

text \<open>The arguments a wrapper hands to its original: its own parameters
  (\<^verbatim>\<open>original.call(this, level)\<close>, \<^verbatim>\<open>original.call(this)\<close>).\<close>

fun args_of :: "activation \<Rightarrow> jsval list" where
  "args_of (StartGame level) = [level]"
| "args_of (StartTimer duration) = [duration]"
| "args_of (Alert message) = [message]"
| "args_of c = []"

text \<open>\<open>enter env this c\<close>: the body of the wrapper runs, \<open>this\<close> being the \<^verbatim>\<open>this\<close> of the
  wrapper. For \<^verbatim>\<open>alert\<close> the function entered is the value \<^verbatim>\<open>window.alert\<close> holds.\<close>

fun enter :: "env \<Rightarrow> jsthis \<Rightarrow> activation \<Rightarrow> jsval js" where
  "enter env this (StartGame level) = startGame_hook env this level"
| "enter env this StartReflexMode = startReflexMode_hook env this"
| "enter env this HandleCorrectMatch = handleCorrectMatch_hook env this"
| "enter env this HandleIncorrectMatch = handleIncorrectMatch_hook env this"
| "enter env this HandleCampaignWin = handleCampaignWin_hook env this"
| "enter env this HandleReflexModeEnd = handleReflexModeEnd_hook env this"
| "enter env this (StartTimer duration) = startTimer_hook env this duration"
| "enter env this (Alert message) = bind (gets window_alert) (\<lambda>a. call_alert env a this message)"

text \<open>The host function at the bottom of a chain of alert closures.\<close>

fun alert_base :: "alert_fn \<Rightarrow> host_fn option" where
  "alert_base (HostAlert f) = f"
| "alert_base (AlertWrapper a) = alert_base a"

fun alert_depth :: "alert_fn \<Rightarrow> nat" where
  "alert_depth (HostAlert f) = 0"
| "alert_depth (AlertWrapper a) = Suc (alert_depth a)"

text \<open>The original a wrapped operation delegates to.\<close>

definition original_of :: "state \<Rightarrow> opname \<Rightarrow> host_fn option" where
  "original_of s op = (if op = OpAlert then alert_base (window_alert s) else captured s op)"

subsection \<open>The host calling the page's operations\<close>

text \<open>The host calls the value of a property of \<^verbatim>\<open>window\<close> with a \<^verbatim>\<open>this\<close> value and any number
  of arguments. The script has no \<^verbatim>\<open>'use strict'\<close> directive, so its wrappers are
  sloppy-mode functions: inside a wrapper \<^verbatim>\<open>this\<close> is an object, the global object when the
  call passed \<^verbatim>\<open>undefined\<close> or \<^verbatim>\<open>null\<close>, the wrapper object of a primitive value when it
  passed one. A parameter without an argument is \<^verbatim>\<open>undefined\<close>; an argument without a
  parameter is not looked at (no wrapper reads \<^verbatim>\<open>arguments\<close>).\<close>

fun sloppy_this :: "jsthis \<Rightarrow> jsthis" where
  "sloppy_this (Plain JUndefined) = GlobalThis"
| "sloppy_this (Plain JNull) = GlobalThis"
| "sloppy_this (Plain (JBool b)) = Boxed (JBool b)"
| "sloppy_this (Plain (JNum n)) = Boxed (JNum n)"
| "sloppy_this (Plain (JStr str)) = Boxed (JStr str)"
| "sloppy_this (Boxed v) = Boxed v"
| "sloppy_this GlobalThis = GlobalThis"
| "sloppy_this (ObjectRef r) = ObjectRef r"

definition param :: "jsval list \<Rightarrow> nat \<Rightarrow> jsval" where
  "param args i = (if i < length args then args ! i else JUndefined)"

fun bind_params :: "opname \<Rightarrow> jsval list \<Rightarrow> activation" where
  "bind_params OpStartGame args = StartGame (param args 0)"
| "bind_params OpStartReflexMode args = StartReflexMode"
| "bind_params OpHandleCorrectMatch args = HandleCorrectMatch"
| "bind_params OpHandleIncorrectMatch args = HandleIncorrectMatch"
| "bind_params OpHandleCampaignWin args = HandleCampaignWin"
| "bind_params OpHandleReflexModeEnd args = HandleReflexModeEnd"
| "bind_params OpStartTimer args = StartTimer (param args 0)"
| "bind_params OpAlert args = Alert (param args 0)"

text \<open>After loading, seven properties hold wrappers; \<^verbatim>\<open>window.alert\<close> holds one once
  \<^verbatim>\<open>startTimer\<close> has installed it, and the host's own function before.\<close>

definition wrapped :: "state \<Rightarrow> opname \<Rightarrow> bool" where
  "wrapped s op \<longleftrightarrow> op \<noteq> OpAlert \<or> 0 < alert_depth (window_alert s)"

text \<open>\<open>invoke env this op args\<close>: the host calls the operation through its property of
  \<^verbatim>\<open>window\<close>, after the script was loaded. A call of an unwrapped \<^verbatim>\<open>window.alert\<close> is a call
  of the host's function.\<close>

definition invoke :: "env \<Rightarrow> jsthis \<Rightarrow> opname \<Rightarrow> jsval list \<Rightarrow> jsval js" where
  "invoke env this op args =
     (\<lambda>s. if wrapped s op then enter env (sloppy_this this) (bind_params op args) s
          else call_original OpAlert (alert_base (window_alert s)) this args s)"

text \<open>A sequence of calls by the host, each in the environment of its time. An exception
  goes to the host's caller; the script's state stays as the call left it.\<close>

fun run :: "(env \<times> jsthis \<times> opname \<times> jsval list) list \<Rightarrow> state \<Rightarrow> state" where
  "run [] s = s"
| "run ((env, this, op, args) # calls) s = run calls (snd (invoke env this op args s))"

text \<open>What a step appended to the trace.\<close>

definition new_events :: "state \<Rightarrow> state \<Rightarrow> event list" where
  "new_events s s' = drop (length (trace s)) (trace s')"

subsection \<open>Loading the script\<close>

text \<open>Lines 9--36, 64, 92, 131, 171, 220, 260 and 304--309. \<open>host\<close> is what the
  properties of \<^verbatim>\<open>window\<close> hold when the script is loaded. The script has no \<^verbatim>\<open>try\<close> at
  top level: when the analytics manager throws, loading stops there and no wrapper is
  installed; the host calls wrappers only after \<open>fst (attach host env) = Inr ()\<close>.\<close>

definition blank :: "(opname \<Rightarrow> host_fn option) \<Rightarrow> state" where
  "blank host =
     \<lparr>levelStartTime = None, currentLevelId = JNull, taskCounter = 0,
      captured = (\<lambda>op. None), window_alert = HostAlert (host OpAlert), trace = [], ticks = 0\<rparr>"

definition hooked_at_load :: "opname list" where
  "hooked_at_load =
     [OpStartGame, OpStartReflexMode, OpHandleCorrectMatch, OpHandleIncorrectMatch,
      OpHandleCampaignWin, OpHandleReflexModeEnd, OpStartTimer]"

fun install_all :: "(opname \<Rightarrow> host_fn option) \<Rightarrow> opname list \<Rightarrow> unit js" where
  "install_all host [] = return ()"
| "install_all host (op # ops) =
     seq (modify (\<lambda>s. s\<lparr>captured := (captured s)(op := host op)\<rparr>))
    (seq (emit (Install op)) (install_all host ops))"

definition load_script :: "(opname \<Rightarrow> host_fn option) \<Rightarrow> env \<Rightarrow> unit js" where
  "load_script host env =
     seq (console_log ''[Analytics] Loading integration script...'')
    (bind (date_now env) (\<lambda>now.
     let sessionID = ''session_'' @ string_of_int now @ ''_'' @ random_suffix env in
     seq (sink env NewManager)
    (seq (sink env (Initialize ''BrainMatch'' sessionID))
    (seq (console_log (''[Analytics] Initialized with Session ID: '' @ sessionID))
    (seq (install_all host hooked_at_load)
    (seq (console_log ''[Analytics] Integration loaded successfully'')
    (seq (console_log ''[Analytics] Tracking enabled for:'')
    (seq (console_log ''  - Campaign levels (start, win, fail)'')
    (seq (console_log ''  - Reflex mode (start, complete)'')
    (seq (console_log ''  - Card matches (correct and incorrect)'')
         (console_log ''  - Performance metrics (time, turns, XP, stars)'')))))))))))"

definition attach :: "(opname \<Rightarrow> host_fn option) \<Rightarrow> env \<Rightarrow> (exn + unit) \<times> state" where
  "attach host env = load_script host env (blank host)"

subsection \<open>Notions used in the statements\<close>

text \<open>What \<^verbatim>\<open>original.call(this, args)\<close> appends to the trace and what it yields: nothing and a
  \<^verbatim>\<open>TypeError\<close> when the original is undefined.\<close>

definition delegation :: "opname \<Rightarrow> host_fn option \<Rightarrow> jsthis \<Rightarrow> jsval list \<Rightarrow> event list" where
  "delegation op f this args = (case f of None \<Rightarrow> [] | Some g \<Rightarrow> [OrigCall op this args])"

definition delegated :: "host_fn option \<Rightarrow> jsthis \<Rightarrow> jsval list \<Rightarrow> exn + jsval" where
  "delegated f this args = (case f of None \<Rightarrow> Inl TypeError | Some g \<Rightarrow> g this args)"

text \<open>What the original receives in a call by the host: the \<^verbatim>\<open>this\<close> and the parameters of
  the wrapper; the \<^verbatim>\<open>this\<close> and the arguments of the call itself when the property holds no
  wrapper.\<close>

definition received_this :: "state \<Rightarrow> opname \<Rightarrow> jsthis \<Rightarrow> jsthis" where
  "received_this s op this = (if wrapped s op then sloppy_this this else this)"

definition received_args :: "state \<Rightarrow> opname \<Rightarrow> jsval list \<Rightarrow> jsval list" where
  "received_args s op args = (if wrapped s op then args_of (bind_params op args) else args)"

text \<open>The number of parameters a wrapper declares, and a \<^verbatim>\<open>this\<close> value that is an object.\<close>

fun arity :: "opname \<Rightarrow> nat" where
  "arity OpStartGame = 1"
| "arity OpStartTimer = 1"
| "arity OpAlert = 1"
| "arity op = 0"

fun is_object :: "jsthis \<Rightarrow> bool" where
  "is_object (Plain v) = False"
| "is_object this = True"

text \<open>The kinds of events: a call of an original; an effect of the instrumentation (a call of
  the analytics manager, of the console or of a calculator of the host).\<close>

fun is_orig_call :: "event \<Rightarrow> bool" where
  "is_orig_call (OrigCall op this args) = True"
| "is_orig_call e = False"

fun instrumentation :: "event \<Rightarrow> bool" where
  "instrumentation (Sink c) = True"
| "instrumentation (ConsoleLog msg) = True"
| "instrumentation (ConsoleError label e) = True"
| "instrumentation (CalcCall c args) = True"
| "instrumentation (OrigCall op this args) = False"
| "instrumentation (Install op) = False"

text \<open>The events of one call of a wrapper when the original is called last, after the
  instrumentation, and when it is called first, before \<^verbatim>\<open>window.alert\<close> is wrapped.\<close>

definition delegates_last :: "opname \<Rightarrow> jsthis \<Rightarrow> jsval list \<Rightarrow> event list \<Rightarrow> bool" where
  "delegates_last op this args evs \<longleftrightarrow>
     evs \<noteq> [] \<and> last evs = OrigCall op this args \<and> list_all instrumentation (butlast evs)"

definition delegates_first :: "opname \<Rightarrow> jsthis \<Rightarrow> jsval list \<Rightarrow> event list \<Rightarrow> bool" where
  "delegates_first op this args evs \<longleftrightarrow>
     evs \<noteq> [] \<and> hd evs = OrigCall op this args \<and> list_all (\<lambda>e. e = Install OpAlert) (tl evs)"

text \<open>Task records (calls of \<^verbatim>\<open>analytics.recordTask\<close>), the identifier of the \<open>n\<close>-th task of a
  level, and a task record without time and XP.\<close>

fun is_task :: "event \<Rightarrow> bool" where
  "is_task (Sink (RecordTask lid tid label expected actual timeTakenMs xpEarned)) = True"
| "is_task e = False"

definition task_id :: "nat \<Rightarrow> string" where
  "task_id n = ''task_'' @ string_of_nat n"

fun task_zero :: "event \<Rightarrow> bool" where
  "task_zero (Sink (RecordTask lid tid label expected actual timeTakenMs xpEarned)) =
     (timeTakenMs = 0 \<and> xpEarned = 0)"
| "task_zero e = True"

text \<open>The task identifiers handed to the analytics manager since the last level start
  (\<^verbatim>\<open>analytics.startLevel\<close>), oldest first.\<close>

fun task_step :: "string list \<Rightarrow> event \<Rightarrow> string list" where
  "task_step acc (Sink (StartLevel lid)) = []"
| "task_step acc (Sink (RecordTask lid tid label expected actual timeTakenMs xpEarned)) = acc @ [tid]"
| "task_step acc e = acc"

definition tasks_since_start :: "event list \<Rightarrow> string list" where
  "tasks_since_start evs = foldl task_step [] evs"

text \<open>Calls of \<^verbatim>\<open>analytics.endLevel\<close>.\<close>

fun is_end_level :: "event \<Rightarrow> bool" where
  "is_end_level (Sink (EndLevel lid success d xp)) = True"
| "is_end_level e = False"





text \<open>The number of reports handed over (calls of \<^verbatim>\<open>analytics.submitReport\<close>), and the errors
  caught by a \<^verbatim>\<open>catch\<close> block, among some events.\<close>

definition submissions :: "event list \<Rightarrow> nat" where
  "submissions evs = length (filter (\<lambda>e. e = Sink SubmitReport) evs)"

fun is_console_error :: "event \<Rightarrow> bool" where
  "is_console_error (ConsoleError label e) = True"
| "is_console_error e = False"

subsection \<open>Concrete inputs\<close>

text \<open>A host in which every operation exists and returns \<^verbatim>\<open>'done'\<close>, one without
  \<^verbatim>\<open>window.startGame\<close>, and environments with two flipped cards, a working analytics
  manager and a clock that advances by a second at each reading.\<close>

definition demo_fn :: host_fn where
  "demo_fn = (\<lambda>this args. Inr (JStr ''done''))"

definition demo_host :: "opname \<Rightarrow> host_fn option" where
  "demo_host = (\<lambda>op. Some demo_fn)"

definition bare_host :: "opname \<Rightarrow> host_fn option" where
  "bare_host = demo_host(OpStartGame := None)"

text \<open>A host whose \<^verbatim>\<open>startGame\<close> returns the number of arguments it was called with
  (\<^verbatim>\<open>arguments.length\<close>).\<close>

definition count_fn :: host_fn where
  "count_fn = (\<lambda>this args. Inr (JNum (int (length args))))"

definition counting_host :: "opname \<Rightarrow> host_fn option" where
  "counting_host = demo_host(OpStartGame := Some count_fn)"

definition demo_card :: "string \<Rightarrow> string \<Rightarrow> card" where
  "demo_card v m = \<lparr>dataset_value = Some v, dataset_match = Some m\<rparr>"

definition demo_env :: env where
  "demo_env =
     \<lparr>gameState = Some \<lparr>flippedCards = Some [Some (demo_card ''A'' ''A''), Some (demo_card ''A'' ''A'')],
                        currentCampaignLevel = JNum 1, turns = JNum 7\<rparr>,
      calculators = (\<lambda>c. None), sink_raises = (\<lambda>tr c. None), clock = (\<lambda>k. 1000 * int k),
      random_suffix = ''abc''\<rparr>"

definition mismatch_env :: env where
  "mismatch_env =
     demo_env\<lparr>gameState := Some \<lparr>flippedCards = Some [Some (demo_card ''C'' ''A''), Some (demo_card ''B'' ''B'')],
                                 currentCampaignLevel = JNum 1, turns = JNum 8\<rparr>\<rparr>"

text \<open>An environment in which the second flipped item is \<^verbatim>\<open>null\<close> (or has no
  \<^verbatim>\<open>dataset\<close>).\<close>

definition torn_env :: env where
  "torn_env =
     demo_env\<lparr>gameState := Some \<lparr>flippedCards = Some [Some (demo_card ''C'' ''A''), None],
                                 currentCampaignLevel = JNum 1, turns = JNum 8\<rparr>\<rparr>"

text \<open>An environment in which \<^verbatim>\<open>analytics.endLevel\<close> throws.\<close>

definition offline_env :: env where
  "offline_env =
     demo_env\<lparr>sink_raises :=
       (\<lambda>tr c. case c of EndLevel lid success d xp \<Rightarrow> Some (JStr ''offline'') | _ \<Rightarrow> None)\<rparr>"

text \<open>The message of the timeout alert.\<close>

definition times_up :: jsval where
  "times_up = JStr (''Time'' @ [CHR 0x27] @ ''s Up!'')"

subsection \<open>Closed forms of what a hook appends\<close>

text \<open>What follows a call of the analytics manager inside a hook body: the log line of
  the body when the call returned, the \<^verbatim>\<open>console.error\<close> of the \<^verbatim>\<open>catch\<close> when it threw.\<close>

definition log_or_error :: "env \<Rightarrow> event list \<Rightarrow> sink_call \<Rightarrow> string \<Rightarrow> string \<Rightarrow> event" where
  "log_or_error env tr c msg label =
     (case sink_raises env tr c of None \<Rightarrow> ConsoleLog msg | Some v \<Rightarrow> ConsoleError label (Thrown v))"

text \<open>The two flipped cards, when \<^verbatim>\<open>window.gameState.flippedCards\<close> is an array of exactly
  two elements.\<close>

definition flipped_pair :: "env \<Rightarrow> (card \<times> card) option" where
  "flipped_pair env =
     (case gameState env of
        None \<Rightarrow> None
      | Some gs \<Rightarrow>
          (case flippedCards gs of
             Some [Some card1, Some card2] \<Rightarrow> Some (card1, card2)
           | _ \<Rightarrow> None))"

text \<open>What loading appends to the trace.\<close>

definition session_id :: "env \<Rightarrow> string" where
  "session_id env = ''session_'' @ string_of_int (clock env 0) @ ''_'' @ random_suffix env"

definition load_prefix :: "env \<Rightarrow> event list" where
  "load_prefix env =
     [ConsoleLog ''[Analytics] Loading integration script...'', Sink NewManager,
      Sink (Initialize ''BrainMatch'' (session_id env))]"

definition load_log :: "event list" where
  "load_log =
     [ConsoleLog ''[Analytics] Integration loaded successfully'',
      ConsoleLog ''[Analytics] Tracking enabled for:'',
      ConsoleLog ''  - Campaign levels (start, win, fail)'',
      ConsoleLog ''  - Reflex mode (start, complete)'',
      ConsoleLog ''  - Card matches (correct and incorrect)'',
      ConsoleLog ''  - Performance metrics (time, turns, XP, stars)'']"

subsection \<open>Invariants of the variables and predicates on events\<close>

text \<open>An invariant that does not look at the trace, at the number of clock readings, at the
  three variables a level start assigns.\<close>

definition stable :: "(state \<Rightarrow> bool) \<Rightarrow> bool" where
  "stable I \<longleftrightarrow> (\<forall>s t. I (s\<lparr>trace := t\<rparr>) = I s)"

definition tickless :: "(state \<Rightarrow> bool) \<Rightarrow> bool" where
  "tickless I \<longleftrightarrow> (\<forall>s k. I (s\<lparr>ticks := k\<rparr>) = I s)"

definition resettable :: "(state \<Rightarrow> bool) \<Rightarrow> bool" where
  "resettable I \<longleftrightarrow>
     (\<forall>s v. I (s\<lparr>currentLevelId := v\<rparr>) = I s) \<and>
     (\<forall>s v. I (s\<lparr>levelStartTime := v\<rparr>) = I s) \<and>
     (\<forall>s v. I (s\<lparr>taskCounter := v\<rparr>) = I s)"

text \<open>\<open>hoare I P m\<close>: from a state that satisfies \<open>I\<close>, the block \<open>m\<close> ends in one that does and
  appends only events that satisfy \<open>P\<close>. \<open>runs_as\<close>: the same for a whole wrapper, which
  ends with the delegation to \<open>f\<close>.\<close>

definition steps_to :: "(event \<Rightarrow> bool) \<Rightarrow> state \<Rightarrow> state \<Rightarrow> bool" where
  "steps_to P s s' \<longleftrightarrow> (\<exists>evs. trace s' = trace s @ evs \<and> list_all P evs)"

definition hoare :: "(state \<Rightarrow> bool) \<Rightarrow> (event \<Rightarrow> bool) \<Rightarrow> 'a js \<Rightarrow> bool" where
  "hoare I P m \<longleftrightarrow> (\<forall>s. I s \<longrightarrow> I (snd (m s)) \<and> steps_to P s (snd (m s)))"

definition framed :: "state \<Rightarrow> (state \<Rightarrow> bool) \<Rightarrow> state \<Rightarrow> bool" where
  "framed s I s' \<longleftrightarrow> I s' \<and> captured s' = captured s \<and> window_alert s' = window_alert s"

definition runs_as ::
  "(state \<Rightarrow> bool) \<Rightarrow> (event \<Rightarrow> bool) \<Rightarrow> state \<Rightarrow> opname \<Rightarrow> host_fn option \<Rightarrow> jsthis \<Rightarrow> jsval list
   \<Rightarrow> (exn + jsval) \<times> state \<Rightarrow> bool" where
  "runs_as I P s op f this args out \<longleftrightarrow>
     (\<exists>evs s1. list_all P evs \<and> I s1 \<and> captured s1 = captured s \<and>
        window_alert s1 = window_alert s \<and> trace s1 = trace s @ evs \<and>
        out = (delegated f this args, s1\<lparr>trace := trace s1 @ delegation op f this args\<rparr>))"

text \<open>No constraint on the state; events that are neither a level start nor a task record; the
  invariant of the task numbers.\<close>

definition any_state :: "state \<Rightarrow> bool" where
  "any_state s = True"

fun quiet :: "event \<Rightarrow> bool" where
  "quiet (Sink (StartLevel lid)) = False"
| "quiet (Sink (RecordTask lid tid label expected actual timeTakenMs xpEarned)) = False"
| "quiet e = True"

definition task_inv :: "state \<Rightarrow> bool" where
  "task_inv s \<longleftrightarrow> tasks_since_start (trace s) = map task_id [1..<Suc (taskCounter s)]"






definition no_submit :: "event \<Rightarrow> bool" where
  "no_submit e \<longleftrightarrow> e \<noteq> Sink SubmitReport \<and> \<not> is_console_error e"

text \<open>A block that calls \<^verbatim>\<open>submitReport\<close> at most once, and exactly once when it runs to its
  end.\<close>

definition submits_once :: "unit js \<Rightarrow> bool" where
  "submits_once m \<longleftrightarrow>
     (\<forall>s. \<exists>evs. trace (snd (m s)) = trace s @ evs \<and>
        list_all (\<lambda>e. \<not> is_console_error e) evs \<and> submissions evs \<le> 1 \<and>
        (fst (m s) = Inr () \<longrightarrow> submissions evs = 1))"

text \<open>A block that has not called \<^verbatim>\<open>submitReport\<close> when it raises, and a block that does not
  raise.\<close>

definition unsubmitted :: "unit js \<Rightarrow> bool" where
  "unsubmitted m \<longleftrightarrow>
     (\<forall>s. \<exists>evs. trace (snd (m s)) = trace s @ evs \<and>
        (fst (m s) \<noteq> Inr () \<longrightarrow> submissions evs = 0))"

definition unfailing :: "unit js \<Rightarrow> bool" where
  "unfailing m \<longleftrightarrow> (\<forall>s. fst (m s) = Inr ())"

section \<open>Reasoning about the hooks\<close>

subsection \<open>Printing small numbers\<close>

lemma string_of_int_small:
  "string_of_int 0 = ''0''" "string_of_int 1 = ''1''"
  "numeral k \<le> (2 :: int) ^ 53 \<Longrightarrow> string_of_int (numeral k) = string_of_nat (numeral k)"
  by (simp_all add: string_of_int_def string_of_nat.simps)

subsection \<open>Rules for the primitives\<close>

lemma steps_to_refl: "steps_to P s s"
  by (simp add: steps_to_def)

lemma steps_to_trans: "steps_to P s s1 \<Longrightarrow> steps_to P s1 s2 \<Longrightarrow> steps_to P s s2"
  by (auto simp: steps_to_def)

lemma steps_to_emit: "P e \<Longrightarrow> steps_to P s (s\<lparr>trace := trace s @ [e]\<rparr>)"
  by (simp add: steps_to_def)

lemma hoareD: "hoare I P m \<Longrightarrow> I s \<Longrightarrow> m s = (r, s') \<Longrightarrow> I s' \<and> steps_to P s s'"
  by (auto simp: hoare_def dest!: spec [of _ s])

lemma hoare_return: "hoare I P (return x)"
  by (simp add: hoare_def return_def steps_to_refl)

lemma hoare_throw: "hoare I P (throw e)"
  by (simp add: hoare_def throw_def steps_to_refl)

lemma hoare_lift: "hoare I P (lift r)"
  by (simp add: hoare_def lift_def steps_to_refl)

lemma hoare_gets: "hoare I P (gets g)"
  by (simp add: hoare_def gets_def steps_to_refl)

lemma hoare_bind:
  assumes m: "hoare I P m" and f: "\<And>x. hoare I P (f x)"
  shows "hoare I P (bind m f)"
  unfolding hoare_def
proof (intro allI impI)
  fix s assume s: "I s"
  obtain r s1 where ms: "m s = (r, s1)" by (cases "m s")
  from hoareD [OF m s ms] have s1: "I s1" "steps_to P s s1" by simp_all
  show "I (snd (bind m f s)) \<and> steps_to P s (snd (bind m f s))"
  proof (cases r)
    case (Inl e)
    with ms s1 show ?thesis by (simp add: bind_def)
  next
    case (Inr x)
    obtain r2 s2 where fs: "f x s1 = (r2, s2)" by (cases "f x s1")
    from hoareD [OF f s1(1) fs] have "I s2" "steps_to P s1 s2" by simp_all
    with s1 have "I s2" "steps_to P s s2" by (auto intro: steps_to_trans)
    with ms Inr fs show ?thesis by (simp add: bind_def)
  qed
qed

lemma hoare_bind_gets:
  assumes "\<And>s. I s \<Longrightarrow> hoare (\<lambda>s'. I s' \<and> g s' = g s) P (f (g s))"
  shows "hoare I P (bind (gets g) f)"
  unfolding hoare_def
proof (intro allI impI)
  fix s assume s: "I s"
  obtain r s1 where fs: "f (g s) s = (r, s1)" by (cases "f (g s) s")
  from hoareD [OF assms [OF s] _ fs] s have "I s1" "steps_to P s s1" by simp_all
  with fs show "I (snd (bind (gets g) f s)) \<and> steps_to P s (snd (bind (gets g) f s))"
    by (simp add: bind_def gets_def)
qed

lemma hoare_seq: "hoare I P m \<Longrightarrow> hoare I P k \<Longrightarrow> hoare I P (seq m k)"
  by (simp add: seq_def hoare_bind)

lemma hoare_modify:
  "(\<And>s. I s \<Longrightarrow> I (g s)) \<Longrightarrow> (\<And>s. trace (g s) = trace s) \<Longrightarrow> hoare I P (modify g)"
  by (simp add: hoare_def modify_def steps_to_def)

lemma hoare_emit: "stable I \<Longrightarrow> P e \<Longrightarrow> hoare I P (emit e)"
  by (simp add: hoare_def emit_def modify_def steps_to_emit stable_def)

lemma hoare_console_log: "stable I \<Longrightarrow> P (ConsoleLog msg) \<Longrightarrow> hoare I P (console_log msg)"
  by (simp add: console_log_def hoare_emit)

lemma hoare_sink: "stable I \<Longrightarrow> P (Sink c) \<Longrightarrow> hoare I P (sink env c)"
  by (simp add: hoare_def sink_def steps_to_emit stable_def split: option.splits)

lemma hoare_date_now: "tickless I \<Longrightarrow> hoare I P (date_now env)"
  by (simp add: hoare_def date_now_def steps_to_def tickless_def)

lemma hoare_elapsed: "tickless I \<Longrightarrow> hoare I P (elapsed env)"
  unfolding elapsed_def
  by (intro hoare_bind hoare_date_now hoare_gets hoare_return)

lemma elapsed_run:
  "elapsed env s = (Inr (clock env (ticks s) - start0 (levelStartTime s)), s\<lparr>ticks := Suc (ticks s)\<rparr>)"
  by (simp add: elapsed_def bind_def date_now_def gets_def return_def start0_def)

lemma hoare_bind_elapsed:
  assumes tl: "tickless I"
    and f: "\<And>s. I s \<Longrightarrow>
              hoare (\<lambda>s'. I s' \<and> levelStartTime s' = levelStartTime s) P
                (f (clock env (ticks s) - start0 (levelStartTime s)))"
  shows "hoare I P (bind (elapsed env) f)"
  unfolding hoare_def
proof (intro allI impI)
  fix s assume s: "I s"
  let ?s1 = "s\<lparr>ticks := Suc (ticks s)\<rparr>"
  let ?d = "clock env (ticks s) - start0 (levelStartTime s)"
  have s1: "I ?s1 \<and> levelStartTime ?s1 = levelStartTime s"
    using tl s by (simp add: tickless_def)
  obtain r s2 where fs: "f ?d ?s1 = (r, s2)" by (cases "f ?d ?s1")
  from hoareD [OF f [OF s] s1 fs] have "I s2" "steps_to P ?s1 s2" by simp_all
  then have "I s2" "steps_to P s s2" by (simp_all add: steps_to_def)
  with fs show "I (snd (bind (elapsed env) f s)) \<and> steps_to P s (snd (bind (elapsed env) f s))"
    by (simp add: bind_def elapsed_run)
qed

lemma hoare_read_gameState: "hoare I P (read_gameState env)"
  by (simp add: read_gameState_def hoare_return hoare_throw split: option.splits)

lemma hoare_optional_calc:
  "stable I \<Longrightarrow> P (CalcCall c args) \<Longrightarrow> hoare I P (optional_calc env c args)"
  by (simp add: optional_calc_def hoare_return hoare_seq hoare_emit hoare_lift split: option.splits)

lemma hoare_add_metric_of:
  "stable I \<Longrightarrow> (\<And>str. P (Sink (AddRawMetric key str))) \<Longrightarrow> hoare I P (add_metric_of env key v)"
  unfolding add_metric_of_def
  by (intro hoare_bind hoare_lift hoare_sink)

lemma hoare_try_catch:
  assumes st: "stable I" and err: "\<And>e. P (ConsoleError label e)" and body: "hoare I P body"
  shows "hoare I P (try_catch body label)"
  unfolding hoare_def
proof (intro allI impI)
  fix s assume s: "I s"
  obtain r s1 where bs: "body s = (r, s1)" by (cases "body s")
  from hoareD [OF body s bs] have s1: "I s1" "steps_to P s s1" by simp_all
  show "I (snd (try_catch body label s)) \<and> steps_to P s (snd (try_catch body label s))"
  proof (cases r)
    case (Inl e)
    let ?s2 = "s1\<lparr>trace := trace s1 @ [ConsoleError label e]\<rparr>"
    have "steps_to P s1 ?s2" using err by (rule steps_to_emit)
    with s1 have "steps_to P s ?s2" by (auto intro: steps_to_trans)
    moreover have "I ?s2" using st s1 by (simp add: stable_def)
    ultimately show ?thesis using bs Inl by (simp add: try_catch_def emit_def modify_def)
  next
    case (Inr u)
    with bs s1 show ?thesis by (simp add: try_catch_def)
  qed
qed

lemma try_catch_result: "fst (try_catch body label s) = Inr ()"
  by (simp add: try_catch_def emit_def modify_def split: prod.splits sum.splits)

lemma stable_conj: "stable I \<Longrightarrow> stable J \<Longrightarrow> stable (\<lambda>s. I s \<and> J s)"
  by (simp add: stable_def)

lemma stable_currentLevelId: "stable (\<lambda>s. currentLevelId s = x)"
  by (simp add: stable_def)

lemma stable_taskCounter: "stable (\<lambda>s. taskCounter s = x)"
  by (simp add: stable_def)

lemma tickless_conj: "tickless I \<Longrightarrow> tickless J \<Longrightarrow> tickless (\<lambda>s. I s \<and> J s)"
  by (simp add: tickless_def)

lemma tickless_currentLevelId: "tickless (\<lambda>s. currentLevelId s = x)"
  by (simp add: tickless_def)

lemma tickless_taskCounter: "tickless (\<lambda>s. taskCounter s = x)"
  by (simp add: tickless_def)

lemmas stable_intros = stable_conj stable_currentLevelId stable_taskCounter
  tickless_conj tickless_currentLevelId tickless_taskCounter

lemmas hoare_prims =
  hoare_bind hoare_seq hoare_return hoare_throw hoare_lift hoare_gets
  hoare_console_log hoare_sink hoare_date_now hoare_elapsed hoare_read_gameState
  hoare_optional_calc hoare_add_metric_of hoare_emit

subsection \<open>The hook bodies\<close>

text \<open>The report blocks assign no variable: any stable invariant is kept.\<close>

lemma hoare_campaign_report:
  assumes st: "stable I"
    and endl: "\<And>s xp. I s \<Longrightarrow> P (Sink (EndLevel (currentLevelId s) True duration xp))"
    and metric: "\<And>key str. P (Sink (AddRawMetric key str))"
    and submit: "P (Sink SubmitReport)"
    and log: "\<And>msg. P (ConsoleLog msg)"
    and calc: "\<And>c args. P (CalcCall c args)"
  shows "hoare I P (campaign_report env level turns_v duration)"
  unfolding campaign_report_def
  by ((rule hoare_bind_gets | rule hoare_prims | rule st stable_intros
        | rule endl metric submit log calc | assumption)+)

lemma hoare_reflex_report:
  assumes st: "stable I"
    and endl: "\<And>s xp. I s \<Longrightarrow> P (Sink (EndLevel (currentLevelId s) True duration xp))"
    and metric: "\<And>key str. P (Sink (AddRawMetric key str))"
    and submit: "P (Sink SubmitReport)"
    and log: "\<And>msg. P (ConsoleLog msg)"
    and calc: "\<And>c args. P (CalcCall c args)"
  shows "hoare I P (reflex_report env turns_v duration)"
  unfolding reflex_report_def
  by ((rule hoare_bind_gets | rule hoare_prims | rule st stable_intros
        | rule endl metric submit log calc | assumption)+)

lemma hoare_timeout_report:
  assumes st: "stable I"
    and endl: "\<And>s xp. I s \<Longrightarrow> P (Sink (EndLevel (currentLevelId s) False timeTaken xp))"
    and metric: "\<And>key str. P (Sink (AddRawMetric key str))"
    and submit: "P (Sink SubmitReport)"
    and log: "\<And>msg. P (ConsoleLog msg)"
  shows "hoare I P (timeout_report env timeTaken)"
  unfolding timeout_report_def
  by ((rule hoare_bind_gets | rule hoare_prims | rule st stable_intros
        | rule endl metric submit log | assumption)+)

text \<open>The three bodies that report an outcome: the duration is a clock reading minus the
  start time the state holds.\<close>

lemma stable_levelStartTime: "stable (\<lambda>s. levelStartTime s = x)"
  by (simp add: stable_def)

lemma hoare_handleCampaignWin_body:
  assumes st: "stable I" and tl: "tickless I"
    and endl: "\<And>s k b xp. I s \<Longrightarrow>
        P (Sink (EndLevel (currentLevelId s) b (clock env k - start0 (levelStartTime s)) xp))"
    and metric: "\<And>key str. P (Sink (AddRawMetric key str))"
    and submit: "P (Sink SubmitReport)"
    and log: "\<And>msg. P (ConsoleLog msg)"
    and calc: "\<And>c args. P (CalcCall c args)"
  shows "hoare I P (handleCampaignWin_body env)"
  unfolding handleCampaignWin_body_def
proof (rule hoare_bind [OF hoare_read_gameState], rule hoare_bind_elapsed [OF tl])
  fix gs s assume s: "I s"
  let ?d = "clock env (ticks s) - start0 (levelStartTime s)"
  show "hoare (\<lambda>s'. I s' \<and> levelStartTime s' = levelStartTime s) P
          (campaign_report env (currentCampaignLevel gs) (turns gs) ?d)"
  proof (rule hoare_campaign_report)
    show "stable (\<lambda>s'. I s' \<and> levelStartTime s' = levelStartTime s)"
      by (intro stable_conj st stable_levelStartTime)
  next
    fix sa xp assume "I sa \<and> levelStartTime sa = levelStartTime s"
    with endl [of sa True "ticks s" xp]
    show "P (Sink (EndLevel (currentLevelId sa) True ?d xp))" by simp
  qed (rule metric submit log calc)+
qed

lemma hoare_handleReflexModeEnd_body:
  assumes st: "stable I" and tl: "tickless I"
    and endl: "\<And>s k b xp. I s \<Longrightarrow>
        P (Sink (EndLevel (currentLevelId s) b (clock env k - start0 (levelStartTime s)) xp))"
    and metric: "\<And>key str. P (Sink (AddRawMetric key str))"
    and submit: "P (Sink SubmitReport)"
    and log: "\<And>msg. P (ConsoleLog msg)"
    and calc: "\<And>c args. P (CalcCall c args)"
  shows "hoare I P (handleReflexModeEnd_body env)"
  unfolding handleReflexModeEnd_body_def
proof (rule hoare_bind [OF hoare_read_gameState], rule hoare_bind_elapsed [OF tl])
  fix gs s assume s: "I s"
  let ?d = "clock env (ticks s) - start0 (levelStartTime s)"
  show "hoare (\<lambda>s'. I s' \<and> levelStartTime s' = levelStartTime s) P
          (reflex_report env (turns gs) ?d)"
  proof (rule hoare_reflex_report)
    show "stable (\<lambda>s'. I s' \<and> levelStartTime s' = levelStartTime s)"
      by (intro stable_conj st stable_levelStartTime)
  next
    fix sa xp assume "I sa \<and> levelStartTime sa = levelStartTime s"
    with endl [of sa True "ticks s" xp]
    show "P (Sink (EndLevel (currentLevelId sa) True ?d xp))" by simp
  qed (rule metric submit log calc)+
qed

lemma hoare_alert_body:
  assumes st: "stable I" and tl: "tickless I"
    and endl: "\<And>s k b xp. I s \<Longrightarrow>
        P (Sink (EndLevel (currentLevelId s) b (clock env k - start0 (levelStartTime s)) xp))"
    and metric: "\<And>key str. P (Sink (AddRawMetric key str))"
    and submit: "P (Sink SubmitReport)"
    and log: "\<And>msg. P (ConsoleLog msg)"
  shows "hoare I P (alert_body env message)"
  unfolding alert_body_def
proof (rule hoare_bind [OF hoare_lift])
  fix hit
  have "hoare I P (report_timeout env)"
    unfolding report_timeout_def
  proof (rule hoare_bind_elapsed [OF tl])
    fix s assume s: "I s"
    let ?d = "clock env (ticks s) - start0 (levelStartTime s)"
    show "hoare (\<lambda>s'. I s' \<and> levelStartTime s' = levelStartTime s) P (timeout_report env ?d)"
    proof (rule hoare_timeout_report)
      show "stable (\<lambda>s'. I s' \<and> levelStartTime s' = levelStartTime s)"
        by (intro stable_conj st stable_levelStartTime)
    next
      fix sa xp assume "I sa \<and> levelStartTime sa = levelStartTime s"
      with endl [of sa False "ticks s" xp]
      show "P (Sink (EndLevel (currentLevelId sa) False ?d xp))" by simp
    qed (rule metric submit log)+
  qed
  then show "hoare I P (if hit then report_timeout env else return ())"
    by (simp add: hoare_return)
qed

text \<open>The two bodies that start a level assign the three variables.\<close>

lemma hoare_startGame_body:
  assumes st: "stable I" and tl: "tickless I" and rs: "resettable I"
    and startl: "\<And>lid. P (Sink (StartLevel lid))"
    and log: "\<And>msg. P (ConsoleLog msg)"
  shows "hoare I P (startGame_body env level)"
  unfolding startGame_body_def
  by ((rule hoare_bind_gets | rule hoare_modify | rule hoare_prims | rule st tl stable_intros
        | rule startl log | simp add: rs [unfolded resettable_def])+)

lemma hoare_startReflexMode_body:
  assumes st: "stable I" and tl: "tickless I" and rs: "resettable I"
    and startl: "\<And>lid. P (Sink (StartLevel lid))"
    and log: "\<And>msg. P (ConsoleLog msg)"
  shows "hoare I P (startReflexMode_body env)"
  unfolding startReflexMode_body_def
  by ((rule hoare_bind_gets | rule hoare_modify | rule hoare_prims | rule st tl stable_intros
        | rule startl log | simp add: rs [unfolded resettable_def])+)

text \<open>The two bodies that record a task assign the task counter.\<close>

lemma hoare_record_correct:
  assumes st: "stable I" and rs: "resettable I"
    and task: "\<And>lid tid label expected actual. P (Sink (RecordTask lid tid label expected actual 0 0))"
    and log: "\<And>msg. P (ConsoleLog msg)"
  shows "hoare I P (record_correct env card1 card2)"
  unfolding record_correct_def Let_def
  by ((rule hoare_bind_gets | rule hoare_modify | rule hoare_prims | rule st stable_intros
        | rule task log | simp add: rs [unfolded resettable_def])+)

lemma hoare_record_incorrect:
  assumes st: "stable I" and rs: "resettable I"
    and task: "\<And>lid tid label expected actual. P (Sink (RecordTask lid tid label expected actual 0 0))"
    and log: "\<And>msg. P (ConsoleLog msg)"
  shows "hoare I P (record_incorrect env card1 card2)"
  unfolding record_incorrect_def Let_def
  by ((rule hoare_bind_gets | rule hoare_modify | rule hoare_prims | rule st stable_intros
        | rule task log | simp add: rs [unfolded resettable_def])+)

lemma hoare_handleCorrectMatch_body:
  assumes st: "stable I" and rs: "resettable I"
    and task: "\<And>lid tid label expected actual. P (Sink (RecordTask lid tid label expected actual 0 0))"
    and log: "\<And>msg. P (ConsoleLog msg)"
  shows "hoare I P (handleCorrectMatch_body env)"
  unfolding handleCorrectMatch_body_def
  by (rule hoare_bind [OF hoare_read_gameState])
     (simp add: hoare_return hoare_throw hoare_record_correct [OF st rs task log]
        split: option.splits list.splits)

lemma hoare_handleIncorrectMatch_body:
  assumes st: "stable I" and rs: "resettable I"
    and task: "\<And>lid tid label expected actual. P (Sink (RecordTask lid tid label expected actual 0 0))"
    and log: "\<And>msg. P (ConsoleLog msg)"
  shows "hoare I P (handleIncorrectMatch_body env)"
  unfolding handleIncorrectMatch_body_def
  by (rule hoare_bind [OF hoare_read_gameState])
     (simp add: hoare_return hoare_throw hoare_record_incorrect [OF st rs task log]
        split: option.splits list.splits)

subsection \<open>A hook: the body in its \<^verbatim>\<open>try\<close>, then the delegation\<close>

lemma call_original_run:
  "call_original op f this args s =
     (delegated f this args, s\<lparr>trace := trace s @ delegation op f this args\<rparr>)"
  by (simp add: call_original_def delegated_def delegation_def throw_def split: option.splits)

lemma stable_captured: "stable (\<lambda>s. captured s = x)"
  by (simp add: stable_def)

lemma stable_window_alert: "stable (\<lambda>s. window_alert s = x)"
  by (simp add: stable_def)

lemma tickless_captured: "tickless (\<lambda>s. captured s = x)"
  by (simp add: tickless_def)

lemma tickless_window_alert: "tickless (\<lambda>s. window_alert s = x)"
  by (simp add: tickless_def)

lemma resettable_conj: "resettable I \<Longrightarrow> resettable J \<Longrightarrow> resettable (\<lambda>s. I s \<and> J s)"
  by (simp add: resettable_def)

lemma resettable_captured: "resettable (\<lambda>s. captured s = x)"
  by (simp add: resettable_def)

lemma resettable_window_alert: "resettable (\<lambda>s. window_alert s = x)"
  by (simp add: resettable_def)

text \<open>The invariant of a hook, with the two variables no hook body assigns.\<close>

lemma stable_framed: "stable I \<Longrightarrow> stable (framed s I)"
  unfolding framed_def by (intro stable_conj stable_captured stable_window_alert)

lemma tickless_framed: "tickless I \<Longrightarrow> tickless (framed s I)"
  unfolding framed_def by (intro tickless_conj tickless_captured tickless_window_alert)

lemma resettable_framed: "resettable I \<Longrightarrow> resettable (framed s I)"
  unfolding framed_def by (intro resettable_conj resettable_captured resettable_window_alert)

lemma framedD: "framed s I s' \<Longrightarrow> I s'"
  by (simp add: framed_def)

lemma wrapper_runs_as:
  fixes body :: "unit js" and label :: string and op :: opname and this :: jsthis
    and args :: "jsval list"
  defines "w \<equiv> seq (try_catch body label)
                   (bind (gets captured) (\<lambda>orig. call_original op (orig op) this args))"
  assumes body: "hoare (framed s I) P body" and st: "stable I"
    and err: "\<And>e. P (ConsoleError label e)" and s: "I s"
  shows "runs_as I P s op (captured s op) this args (w s)"
proof -
  obtain r s1 where tc: "try_catch body label s = (r, s1)"
    by (cases "try_catch body label s")
  have "hoare (framed s I) P (try_catch body label)"
    using stable_framed [OF st] err body by (rule hoare_try_catch)
  moreover have "framed s I s" using s by (simp add: framed_def)
  ultimately have "framed s I s1" "steps_to P s s1" using tc by (auto dest: hoareD)
  then obtain evs where evs: "trace s1 = trace s @ evs" "list_all P evs"
    and fr: "I s1" "captured s1 = captured s" "window_alert s1 = window_alert s"
    by (auto simp: framed_def steps_to_def)
  have r: "r = Inr ()" using try_catch_result [of body label s] tc by simp
  have "w s = (delegated (captured s op) this args,
                s1\<lparr>trace := trace s1 @ delegation op (captured s op) this args\<rparr>)"
    using tc r fr by (simp add: w_def seq_def bind_def gets_def call_original_run)
  with evs fr show ?thesis unfolding runs_as_def by blast
qed

lemma call_alert_runs_as:
  assumes st: "stable I" and tl: "tickless I"
    and endl: "\<And>s k b xp. I s \<Longrightarrow>
        P (Sink (EndLevel (currentLevelId s) b (clock env k - start0 (levelStartTime s)) xp))"
    and metric: "\<And>key str. P (Sink (AddRawMetric key str))"
    and submit: "P (Sink SubmitReport)"
    and log: "\<And>msg. P (ConsoleLog msg)"
    and err: "\<And>label e. P (ConsoleError label e)"
  shows "I s \<Longrightarrow> runs_as I P s OpAlert (alert_base a) this [message] (call_alert env a this message s)"
proof (induction a arbitrary: s)
  case (HostAlert f)
  then show ?case
    unfolding runs_as_def by (intro exI [of _ "[]"] exI [of _ s]) (simp add: call_original_run)
next
  case (AlertWrapper a)
  let ?tc = "try_catch (alert_body env message) ''[Analytics] Error in alert hook:''"
  obtain r s1 where tc: "?tc s = (r, s1)" by (cases "?tc s")
  have "hoare (framed s I) P (alert_body env message)"
    by (rule hoare_alert_body [OF stable_framed [OF st] tickless_framed [OF tl]])
       (auto intro: endl metric submit log dest: framedD)
  then have "hoare (framed s I) P ?tc"
    using stable_framed [OF st] err by (intro hoare_try_catch)
  moreover have "framed s I s" using AlertWrapper.prems by (simp add: framed_def)
  ultimately have "framed s I s1" "steps_to P s s1" using tc by (auto dest: hoareD)
  then obtain evs1 where evs1: "trace s1 = trace s @ evs1" "list_all P evs1"
    and fr: "I s1" "captured s1 = captured s" "window_alert s1 = window_alert s"
    by (auto simp: framed_def steps_to_def)
  have r: "r = Inr ()"
    using try_catch_result [of "alert_body env message" "''[Analytics] Error in alert hook:''" s] tc
    by simp
  have run: "call_alert env (AlertWrapper a) this message s = call_alert env a this message s1"
    using tc r by (simp add: seq_def bind_def)
  from AlertWrapper.IH [OF fr(1)] obtain evs2 s2 where
    "list_all P evs2" "I s2" "captured s2 = captured s1" "window_alert s2 = window_alert s1"
    "trace s2 = trace s1 @ evs2"
    "call_alert env a this message s1 =
       (delegated (alert_base a) this [message],
        s2\<lparr>trace := trace s2 @ delegation OpAlert (alert_base a) this [message]\<rparr>)"
    unfolding runs_as_def by blast
  with evs1 fr run show ?case
    unfolding runs_as_def by (intro exI [of _ "evs1 @ evs2"] exI [of _ s2]) simp
qed

text \<open>The three operations that report an outcome.\<close>

lemma outcome_runs_as:
  assumes c: "c = HandleCampaignWin \<or> c = HandleReflexModeEnd \<or> (\<exists>message. c = Alert message)"
    and st: "stable I" and tl: "tickless I"
    and endl: "\<And>s k b xp. I s \<Longrightarrow>
        P (Sink (EndLevel (currentLevelId s) b (clock env k - start0 (levelStartTime s)) xp))"
    and metric: "\<And>key str. P (Sink (AddRawMetric key str))"
    and submit: "P (Sink SubmitReport)"
    and log: "\<And>msg. P (ConsoleLog msg)"
    and calc: "\<And>c args. P (CalcCall c args)"
    and err: "\<And>label e. P (ConsoleError label e)"
    and s: "I s"
  shows "runs_as I P s (op_of c) (original_of s (op_of c)) this (args_of c) (enter env this c s)"
proof -
  have win: "hoare (framed s I) P (handleCampaignWin_body env)"
    by (rule hoare_handleCampaignWin_body [OF stable_framed [OF st] tickless_framed [OF tl]])
       (auto intro: endl metric submit log calc dest: framedD)
  have reflex: "hoare (framed s I) P (handleReflexModeEnd_body env)"
    by (rule hoare_handleReflexModeEnd_body [OF stable_framed [OF st] tickless_framed [OF tl]])
       (auto intro: endl metric submit log calc dest: framedD)
  from c consider "c = HandleCampaignWin" | "c = HandleReflexModeEnd"
    | message where "c = Alert message" by blast
  then show ?thesis
  proof cases
    case 1
    with wrapper_runs_as [where op = OpHandleCampaignWin and this = this and args = "[]", OF win st err s]
    show ?thesis by (simp add: handleCampaignWin_hook_def original_of_def)
  next
    case 2
    with wrapper_runs_as [where op = OpHandleReflexModeEnd and this = this and args = "[]", OF reflex st err s]
    show ?thesis by (simp add: handleReflexModeEnd_hook_def original_of_def)
  next
    case 3
    with call_alert_runs_as [where a = "window_alert s" and this = this and message = message,
        OF st tl endl metric submit log err s]
    show ?thesis by (simp add: original_of_def bind_def gets_def)
  qed
qed

text \<open>Every operation but \<^verbatim>\<open>startTimer\<close>.\<close>

lemma enter_runs_as:
  assumes c: "op_of c \<noteq> OpStartTimer"
    and st: "stable I" and tl: "tickless I" and rs: "resettable I"
    and startl: "\<And>lid. P (Sink (StartLevel lid))"
    and task: "\<And>lid tid label expected actual. P (Sink (RecordTask lid tid label expected actual 0 0))"
    and endl: "\<And>lid b d xp. P (Sink (EndLevel lid b d xp))"
    and metric: "\<And>key str. P (Sink (AddRawMetric key str))"
    and submit: "P (Sink SubmitReport)"
    and log: "\<And>msg. P (ConsoleLog msg)"
    and calc: "\<And>c args. P (CalcCall c args)"
    and err: "\<And>label e. P (ConsoleError label e)"
    and s: "I s"
  shows "runs_as I P s (op_of c) (original_of s (op_of c)) this (args_of c) (enter env this c s)"
proof -
  note fr = stable_framed [OF st] tickless_framed [OF tl] resettable_framed [OF rs]
  show ?thesis
  proof (cases c)
    case (StartGame level)
    have "hoare (framed s I) P (startGame_body env level)"
      by (rule hoare_startGame_body [OF fr startl log])
    from wrapper_runs_as [where op = OpStartGame and this = this and args = "[level]", OF this st err s] StartGame
    show ?thesis by (simp add: startGame_hook_def original_of_def)
  next
    case StartReflexMode
    have "hoare (framed s I) P (startReflexMode_body env)"
      by (rule hoare_startReflexMode_body [OF fr startl log])
    from wrapper_runs_as [where op = OpStartReflexMode and this = this and args = "[]", OF this st err s] StartReflexMode
    show ?thesis by (simp add: startReflexMode_hook_def original_of_def)
  next
    case HandleCorrectMatch
    have "hoare (framed s I) P (handleCorrectMatch_body env)"
      by (rule hoare_handleCorrectMatch_body [OF fr(1) fr(3) task log])
    from wrapper_runs_as [where op = OpHandleCorrectMatch and this = this and args = "[]", OF this st err s] HandleCorrectMatch
    show ?thesis by (simp add: handleCorrectMatch_hook_def original_of_def)
  next
    case HandleIncorrectMatch
    have "hoare (framed s I) P (handleIncorrectMatch_body env)"
      by (rule hoare_handleIncorrectMatch_body [OF fr(1) fr(3) task log])
    from wrapper_runs_as [where op = OpHandleIncorrectMatch and this = this and args = "[]", OF this st err s] HandleIncorrectMatch
    show ?thesis by (simp add: handleIncorrectMatch_hook_def original_of_def)
  next
    case HandleCampaignWin
    then show ?thesis
      by (intro outcome_runs_as st tl endl metric submit log calc err s) simp
  next
    case HandleReflexModeEnd
    then show ?thesis
      by (intro outcome_runs_as st tl endl metric submit log calc err s) simp
  next
    case (StartTimer duration)
    with c show ?thesis by simp
  next
    case (Alert message)
    then show ?thesis
      by (intro outcome_runs_as st tl endl metric submit log calc err s) simp
  qed
qed

lemma startTimer_run:
  "startTimer_hook env this duration s =
     (case captured s OpStartTimer of
        None \<Rightarrow> (Inl TypeError, s)
      | Some g \<Rightarrow>
          (case g this [duration] of
             Inl e \<Rightarrow> (Inl e, s\<lparr>trace := trace s @ [OrigCall OpStartTimer this [duration]]\<rparr>)
           | Inr result \<Rightarrow>
               (Inr result,
                s\<lparr>window_alert := AlertWrapper (window_alert s),
                  trace := trace s @ [OrigCall OpStartTimer this [duration], Install OpAlert]\<rparr>)))"
  by (simp add: startTimer_hook_def bind_def seq_def gets_def call_original_def throw_def
      try_catch_def modify_def emit_def return_def split: option.splits sum.splits)

lemmas demo_defs = demo_env_def demo_host_def demo_card_def

lemma stable_any_state: "stable any_state" "tickless any_state" "resettable any_state"
  by (simp_all add: stable_def tickless_def resettable_def any_state_def)

lemma runs_as_result: "runs_as I P s op f this args out \<Longrightarrow> fst out = delegated f this args"
  by (auto simp: runs_as_def)

lemma runs_as_events:
  "runs_as I P s op f this args out \<Longrightarrow>
   \<exists>evs. list_all P evs \<and> new_events s (snd out) = evs @ delegation op f this args"
  by (auto simp: runs_as_def new_events_def)

lemma runs_as_frame:
  "runs_as I P s op f this args out \<Longrightarrow>
   captured (snd out) = captured s \<and> window_alert (snd out) = window_alert s"
  by (auto simp: runs_as_def)

lemma filter_none: "list_all (\<lambda>e. \<not> Q e) evs \<Longrightarrow> filter Q evs = []"
  by (induction evs) auto

subsection \<open>Loading\<close>

lemma install_all_run:
  "install_all host ops s =
     (Inr (), s\<lparr>captured := foldl (\<lambda>cap op. cap(op := host op)) (captured s) ops,
                trace := trace s @ map Install ops\<rparr>)"
  by (induction ops arbitrary: s) (simp_all add: return_def seq_def bind_def modify_def emit_def)

lemma attach_run:
  "attach host env =
     (case sink_raises env (take 1 (load_prefix env)) NewManager of
        Some v \<Rightarrow> (Inl (Thrown v), (blank host)\<lparr>trace := take 2 (load_prefix env), ticks := 1\<rparr>)
      | None \<Rightarrow>
          (case sink_raises env (take 2 (load_prefix env)) (Initialize ''BrainMatch'' (session_id env)) of
             Some v \<Rightarrow> (Inl (Thrown v), (blank host)\<lparr>trace := load_prefix env, ticks := 1\<rparr>)
           | None \<Rightarrow>
               (Inr (),
                (blank host)\<lparr>captured := foldl (\<lambda>cap op. cap(op := host op)) (\<lambda>op. None) hooked_at_load,
                  trace := load_prefix env
                    @ [ConsoleLog (''[Analytics] Initialized with Session ID: '' @ session_id env)]
                    @ map Install hooked_at_load @ load_log,
                  ticks := 1\<rparr>)))"
  by (simp add: attach_def load_script_def install_all_run load_prefix_def session_id_def load_log_def
      blank_def Let_def bind_def seq_def console_log_def emit_def modify_def date_now_def sink_def
      split: option.splits)

lemma attach_original_of:
  assumes "fst (attach host env) = Inr ()"
  shows "original_of (snd (attach host env)) op = host op"
  using assms
  by (cases op)
     (simp_all add: attach_run original_of_def blank_def hooked_at_load_def split: option.splits)

lemma attach_outcome_host_free: "fst (attach host env) = fst (attach host' env)"
  by (simp add: attach_run split: option.splits)

lemma attach_trace_host_free: "trace (snd (attach host env)) = trace (snd (attach host' env))"
  by (simp add: attach_run blank_def split: option.splits)

lemma attach_trace_no_task: "list_all task_zero (trace (snd (attach host env)))"
  by (simp add: attach_run blank_def load_prefix_def load_log_def hooked_at_load_def
      split: option.splits)

lemma attach_vars:
  "taskCounter (snd (attach host env)) = 0 \<and> levelStartTime (snd (attach host env)) = None \<and>
   currentLevelId (snd (attach host env)) = JNull"
  by (simp add: attach_run blank_def split: option.splits)

subsection \<open>What every wrapper keeps\<close>

lemma enter_original_of: "original_of (snd (enter env this c s)) op = original_of s op"
proof (cases "op_of c = OpStartTimer")
  case True
  then obtain duration where "c = StartTimer duration" by (cases c) simp_all
  then show ?thesis
    by (simp add: startTimer_run original_of_def split: option.splits sum.splits)
next
  case False
  have "runs_as any_state (\<lambda>e. True) s (op_of c) (original_of s (op_of c)) this (args_of c)
          (enter env this c s)"
    by (rule enter_runs_as [OF False stable_any_state]) (simp_all add: any_state_def)
  from runs_as_frame [OF this] show ?thesis by (simp add: original_of_def)
qed

lemma enter_appends:
  assumes startl: "\<And>lid. P (Sink (StartLevel lid))"
    and task: "\<And>lid tid label expected actual. P (Sink (RecordTask lid tid label expected actual 0 0))"
    and endl: "\<And>lid b d xp. P (Sink (EndLevel lid b d xp))"
    and metric: "\<And>key str. P (Sink (AddRawMetric key str))"
    and submit: "P (Sink SubmitReport)"
    and log: "\<And>msg. P (ConsoleLog msg)"
    and calc: "\<And>c args. P (CalcCall c args)"
    and err: "\<And>label e. P (ConsoleError label e)"
    and orig: "\<And>op this args. P (OrigCall op this args)"
    and inst: "P (Install OpAlert)"
  shows "\<exists>evs. list_all P evs \<and> trace (snd (enter env this c s)) = trace s @ evs"
proof (cases "op_of c = OpStartTimer")
  case True
  then obtain duration where "c = StartTimer duration" by (cases c) simp_all
  then show ?thesis
    by (simp add: startTimer_run orig inst split: option.splits sum.splits)
next
  case False
  have "runs_as any_state P s (op_of c) (original_of s (op_of c)) this (args_of c)
          (enter env this c s)"
    by (rule enter_runs_as [OF False stable_any_state startl task endl metric submit log calc err])
       (simp add: any_state_def)
  then obtain evs s1 where "list_all P evs" "trace s1 = trace s @ evs"
    "snd (enter env this c s) =
       s1\<lparr>trace := trace s1 @ delegation (op_of c) (original_of s (op_of c)) this (args_of c)\<rparr>"
    by (auto simp: runs_as_def)
  then show ?thesis
    by (intro exI [of _ "evs @ delegation (op_of c) (original_of s (op_of c)) this (args_of c)"])
       (simp add: delegation_def orig split: option.splits)
qed

lemma enter_task_zero:
  "list_all task_zero (trace s) \<Longrightarrow> list_all task_zero (trace (snd (enter env this c s)))"
proof -
  assume a: "list_all task_zero (trace s)"
  from enter_appends [of task_zero env this c s]
  obtain evs where "list_all task_zero evs" "trace (snd (enter env this c s)) = trace s @ evs"
    by auto
  with a show ?thesis by simp
qed

subsection \<open>Running the short hooks\<close>

lemma seq_modify_run: "seq (modify g) k s = k (g s)"
  by (simp add: seq_def bind_def modify_def)

lemma bind_date_now_run: "bind (date_now env) f s = f (clock env (ticks s)) (s\<lparr>ticks := Suc (ticks s)\<rparr>)"
  by (simp add: bind_def date_now_def)

lemma bind_gets_run: "bind (gets g) f s = f (g s) s"
  by (simp add: bind_def gets_def)

lemma sink_run:
  "sink env c s =
     (case sink_raises env (trace s) c of Some v \<Rightarrow> Inl (Thrown v) | None \<Rightarrow> Inr (),
      s\<lparr>trace := trace s @ [Sink c]\<rparr>)"
  by (simp add: sink_def split: option.splits)

lemma seq_sink_run:
  "seq (sink env c) k s =
     (case sink_raises env (trace s) c of
        Some v \<Rightarrow> (Inl (Thrown v), s\<lparr>trace := trace s @ [Sink c]\<rparr>)
      | None \<Rightarrow> k (s\<lparr>trace := trace s @ [Sink c]\<rparr>))"
  by (simp add: seq_def bind_def sink_def split: option.splits)

lemma console_log_run: "console_log msg s = (Inr (), s\<lparr>trace := trace s @ [ConsoleLog msg]\<rparr>)"
  by (simp add: console_log_def emit_def modify_def)

lemma seq_console_log_run: "seq (console_log msg) k s = k (s\<lparr>trace := trace s @ [ConsoleLog msg]\<rparr>)"
  by (simp add: seq_def bind_def console_log_run)

lemma try_catch_run:
  "body s = (r, s') \<Longrightarrow>
   try_catch body label s =
     (Inr (), case r of Inl e \<Rightarrow> s'\<lparr>trace := trace s' @ [ConsoleError label e]\<rparr> | Inr u \<Rightarrow> s')"
  by (simp add: try_catch_def emit_def modify_def split: sum.splits)

lemma hook_run:
  "try_catch body label s = (Inr (), s1) \<Longrightarrow>
   seq (try_catch body label) (bind (gets captured) (\<lambda>orig. call_original op (orig op) this args)) s =
     (delegated (captured s1 op) this args,
      s1\<lparr>trace := trace s1 @ delegation op (captured s1 op) this args\<rparr>)"
  by (simp add: seq_def bind_def gets_def call_original_run)

lemma seq_bind_gets_run: "seq (bind (gets g) f) k s = seq (f (g s)) k s"
  by (simp add: seq_def bind_def gets_def)

lemmas run_simps = seq_modify_run bind_date_now_run seq_bind_gets_run bind_gets_run seq_sink_run
  sink_run console_log_run seq_console_log_run

lemma startGame_body_run:
  "startGame_body env level s =
     (let lid = JStr (''campaign_level_'' @ tmpl level) in
      (case sink_raises env (trace s) (StartLevel lid) of Some v \<Rightarrow> Inl (Thrown v) | None \<Rightarrow> Inr (),
       s\<lparr>currentLevelId := lid, levelStartTime := Some (clock env (ticks s)), taskCounter := 0,
         ticks := Suc (ticks s),
         trace := trace s @ Sink (StartLevel lid) #
           (case sink_raises env (trace s) (StartLevel lid) of
              Some v \<Rightarrow> [] | None \<Rightarrow> [ConsoleLog (''[Analytics] Started Level: '' @ tmpl lid)])\<rparr>))"
  unfolding startGame_body_def Let_def
  by (simp add: run_simps split: option.splits)

lemma startGame_hook_run:
  "startGame_hook env this level s =
     (let lid = JStr (''campaign_level_'' @ tmpl level) in
      (delegated (captured s OpStartGame) this [level],
       s\<lparr>currentLevelId := lid, levelStartTime := Some (clock env (ticks s)), taskCounter := 0,
         ticks := Suc (ticks s),
         trace := trace s @
           [Sink (StartLevel lid),
            log_or_error env (trace s) (StartLevel lid)
              (''[Analytics] Started Level: '' @ tmpl lid) ''[Analytics] Error in startGame hook:'']
           @ delegation OpStartGame (captured s OpStartGame) this [level]\<rparr>))"
proof -
  obtain r s1 where body: "startGame_body env level s = (r, s1)" by (cases "startGame_body env level s")
  note tc = try_catch_run [where body = "startGame_body env level" and s = s, OF body]
  from body show ?thesis
    unfolding startGame_hook_def hook_run [OF tc] startGame_body_run
    by (auto simp: Let_def log_or_error_def split: option.splits)
qed

lemma startReflexMode_body_run:
  "startReflexMode_body env s =
     (let lid = JStr ''reflex_mode'' in
      (case sink_raises env (trace s) (StartLevel lid) of Some v \<Rightarrow> Inl (Thrown v) | None \<Rightarrow> Inr (),
       s\<lparr>currentLevelId := lid, levelStartTime := Some (clock env (ticks s)), taskCounter := 0,
         ticks := Suc (ticks s),
         trace := trace s @ Sink (StartLevel lid) #
           (case sink_raises env (trace s) (StartLevel lid) of
              Some v \<Rightarrow> [] | None \<Rightarrow> [ConsoleLog ''[Analytics] Started Reflex Mode''])\<rparr>))"
  unfolding startReflexMode_body_def Let_def
  by (simp add: run_simps split: option.splits)

lemma startReflexMode_hook_run:
  "startReflexMode_hook env this s =
     (let lid = JStr ''reflex_mode'' in
      (delegated (captured s OpStartReflexMode) this [],
       s\<lparr>currentLevelId := lid, levelStartTime := Some (clock env (ticks s)), taskCounter := 0,
         ticks := Suc (ticks s),
         trace := trace s @
           [Sink (StartLevel lid),
            log_or_error env (trace s) (StartLevel lid)
              ''[Analytics] Started Reflex Mode'' ''[Analytics] Error in startReflexMode hook:'']
           @ delegation OpStartReflexMode (captured s OpStartReflexMode) this []\<rparr>))"
proof -
  obtain r s1 where body: "startReflexMode_body env s = (r, s1)" by (cases "startReflexMode_body env s")
  note tc = try_catch_run [where body = "startReflexMode_body env" and s = s, OF body]
  from body show ?thesis
    unfolding startReflexMode_hook_def hook_run [OF tc] startReflexMode_body_run
    by (auto simp: Let_def log_or_error_def split: option.splits)
qed

lemma flipped_pairD:
  "flipped_pair env = Some (card1, card2) \<Longrightarrow>
   \<exists>gs. gameState env = Some gs \<and> flippedCards gs = Some [Some card1, Some card2]"
  by (auto simp: flipped_pair_def split: option.splits list.splits)

lemma record_correct_run:
  "record_correct env card1 card2 s =
     (let task = RecordTask (currentLevelId s) (task_id (Suc (taskCounter s)))
                   (''Match: '' @ or_unknown (dataset_value card1))
                   (or_unknown (dataset_value card1)) (or_unknown (dataset_value card2)) 0 0 in
      (case sink_raises env (trace s) task of Some v \<Rightarrow> Inl (Thrown v) | None \<Rightarrow> Inr (),
       s\<lparr>taskCounter := Suc (taskCounter s),
         trace := trace s @ Sink task #
           (case sink_raises env (trace s) task of
              Some v \<Rightarrow> []
            | None \<Rightarrow> [ConsoleLog (''[Analytics] Task Recorded - Correct Match: ''
                         @ or_unknown (dataset_value card1) @ '' = ''
                         @ or_unknown (dataset_value card2))])\<rparr>))"
  unfolding record_correct_def Let_def task_id_def
  by (simp add: run_simps split: option.splits)

lemma record_incorrect_run:
  "record_incorrect env card1 card2 s =
     (let task = RecordTask (currentLevelId s) (task_id (Suc (taskCounter s)))
                   (''Match: '' @ or_unknown (dataset_value card1))
                   (or_unknown (dataset_match card1)) (or_unknown (dataset_value card2)) 0 0 in
      (case sink_raises env (trace s) task of Some v \<Rightarrow> Inl (Thrown v) | None \<Rightarrow> Inr (),
       s\<lparr>taskCounter := Suc (taskCounter s),
         trace := trace s @ Sink task #
           (case sink_raises env (trace s) task of
              Some v \<Rightarrow> []
            | None \<Rightarrow> [ConsoleLog (''[Analytics] Task Recorded - Incorrect Match: ''
                         @ or_unknown (dataset_value card1) @ '', Expected: ''
                         @ or_unknown (dataset_match card1) @ '', Got: ''
                         @ or_unknown (dataset_value card2))])\<rparr>))"
  unfolding record_incorrect_def Let_def task_id_def
  by (simp add: run_simps split: option.splits)

lemma handleCorrectMatch_body_pair:
  assumes "flipped_pair env = Some (card1, card2)"
  shows "handleCorrectMatch_body env = record_correct env card1 card2"
proof -
  from flipped_pairD [OF assms] obtain gs where
    "gameState env = Some gs" "flippedCards gs = Some [Some card1, Some card2]" by blast
  then show ?thesis
    by (simp add: handleCorrectMatch_body_def read_gameState_def bind_def return_def)
qed

lemma handleIncorrectMatch_body_pair:
  assumes "flipped_pair env = Some (card1, card2)"
  shows "handleIncorrectMatch_body env = record_incorrect env card1 card2"
proof -
  from flipped_pairD [OF assms] obtain gs where
    "gameState env = Some gs" "flippedCards gs = Some [Some card1, Some card2]" by blast
  then show ?thesis
    by (simp add: handleIncorrectMatch_body_def read_gameState_def bind_def return_def)
qed

lemma handleCorrectMatch_hook_run:
  assumes "flipped_pair env = Some (card1, card2)"
  shows "handleCorrectMatch_hook env this s =
     (let task = RecordTask (currentLevelId s) (task_id (Suc (taskCounter s)))
                   (''Match: '' @ or_unknown (dataset_value card1))
                   (or_unknown (dataset_value card1)) (or_unknown (dataset_value card2)) 0 0 in
      (delegated (captured s OpHandleCorrectMatch) this [],
       s\<lparr>taskCounter := Suc (taskCounter s),
         trace := trace s @
           [Sink task,
            log_or_error env (trace s) task
              (''[Analytics] Task Recorded - Correct Match: '' @ or_unknown (dataset_value card1)
                 @ '' = '' @ or_unknown (dataset_value card2))
              ''[Analytics] Error in handleCorrectMatch hook:'']
           @ delegation OpHandleCorrectMatch (captured s OpHandleCorrectMatch) this []\<rparr>))"
proof -
  obtain r s1 where body: "record_correct env card1 card2 s = (r, s1)" by (cases "record_correct env card1 card2 s")
  note tc = try_catch_run [where body = "record_correct env card1 card2" and s = s, OF body]
  from body show ?thesis
    unfolding handleCorrectMatch_hook_def handleCorrectMatch_body_pair [OF assms] hook_run [OF tc] record_correct_run
    by (auto simp: Let_def log_or_error_def split: option.splits)
qed

lemma handleIncorrectMatch_hook_run:
  assumes "flipped_pair env = Some (card1, card2)"
  shows "handleIncorrectMatch_hook env this s =
     (let task = RecordTask (currentLevelId s) (task_id (Suc (taskCounter s)))
                   (''Match: '' @ or_unknown (dataset_value card1))
                   (or_unknown (dataset_match card1)) (or_unknown (dataset_value card2)) 0 0 in
      (delegated (captured s OpHandleIncorrectMatch) this [],
       s\<lparr>taskCounter := Suc (taskCounter s),
         trace := trace s @
           [Sink task,
            log_or_error env (trace s) task
              (''[Analytics] Task Recorded - Incorrect Match: '' @ or_unknown (dataset_value card1)
                 @ '', Expected: '' @ or_unknown (dataset_match card1)
                 @ '', Got: '' @ or_unknown (dataset_value card2))
              ''[Analytics] Error in handleIncorrectMatch hook:'']
           @ delegation OpHandleIncorrectMatch (captured s OpHandleIncorrectMatch) this []\<rparr>))"
proof -
  obtain r s1 where body: "record_incorrect env card1 card2 s = (r, s1)" by (cases "record_incorrect env card1 card2 s")
  note tc = try_catch_run [where body = "record_incorrect env card1 card2" and s = s, OF body]
  from body show ?thesis
    unfolding handleIncorrectMatch_hook_def handleIncorrectMatch_body_pair [OF assms] hook_run [OF tc] record_incorrect_run
    by (auto simp: Let_def log_or_error_def split: option.splits)
qed

lemma is_task_log_or_error: "\<not> is_task (log_or_error env tr c msg label)"
  by (simp add: log_or_error_def split: option.splits)

lemma filter_is_task_delegation: "filter is_task (delegation op f this args) = []"
  by (simp add: delegation_def split: option.splits)

lemma flipped_pairI:
  "gameState env = Some gs \<Longrightarrow> flippedCards gs = Some [Some card1, Some card2] \<Longrightarrow>
   flipped_pair env = Some (card1, card2)"
  by (simp add: flipped_pair_def)

lemma or_unknown_Some: "v \<noteq> [] \<Longrightarrow> or_unknown (Some v) = v"
  by (simp add: or_unknown_def)

lemma demo_attach_ok: "fst (attach demo_host demo_env) = Inr ()"
  by (simp add: attach_run demo_defs)

lemma demo_flipped_pair: "flipped_pair demo_env = Some (demo_card ''A'' ''A'', demo_card ''A'' ''A'')"
  by (simp add: flipped_pair_def demo_env_def)

subsection \<open>Task numbers\<close>

lemma task_step_quiet: "quiet e \<Longrightarrow> task_step acc e = acc"
  by (cases "(acc, e)" rule: task_step.cases) simp_all

lemma foldl_task_step_quiet: "list_all quiet evs \<Longrightarrow> foldl task_step acc evs = acc"
  by (induction evs arbitrary: acc) (simp_all add: task_step_quiet)

lemma tasks_since_start_quiet:
  "list_all quiet evs \<Longrightarrow> tasks_since_start (tr @ evs) = tasks_since_start tr"
  by (simp add: tasks_since_start_def foldl_task_step_quiet)

lemma quiet_delegation: "list_all quiet (delegation op f this args)"
  by (simp add: delegation_def split: option.splits)

lemma quiet_log_or_error: "quiet (log_or_error env tr c msg label)"
  by (simp add: log_or_error_def split: option.splits)

lemma tasks_after_start:
  "tasks_since_start (tr @ Sink (StartLevel lid) # log_or_error env tr' c msg label
     # delegation op f this args) = []"
  by (simp add: tasks_since_start_def task_step_quiet [OF quiet_log_or_error]
      foldl_task_step_quiet [OF quiet_delegation])

lemma tasks_after_record:
  "tasks_since_start (tr @ Sink (RecordTask lid tid lab ex ac tt xp)
     # log_or_error env tr' c msg label # delegation op f this args) = tasks_since_start tr @ [tid]"
  by (simp add: tasks_since_start_def task_step_quiet [OF quiet_log_or_error]
      foldl_task_step_quiet [OF quiet_delegation])

lemma start_establishes:
  "c = StartGame level \<or> c = StartReflexMode \<Longrightarrow>
   taskCounter (snd (enter env this c s)) = 0 \<and>
   tasks_since_start (trace (snd (enter env this c s))) = []"
  by (auto simp: startGame_hook_run startReflexMode_hook_run Let_def tasks_after_start)

lemma stable_taskCounter_eq: "stable (\<lambda>s'. taskCounter s' = n)" "tickless (\<lambda>s'. taskCounter s' = n)"
  by (simp_all add: stable_def tickless_def)

lemma quiet_step:
  assumes "runs_as (\<lambda>s'. taskCounter s' = taskCounter s) quiet s op f this args out"
  shows "taskCounter (snd out) = taskCounter s \<and>
         tasks_since_start (trace (snd out)) = tasks_since_start (trace s)"
proof -
  from assms obtain evs s1 where "list_all quiet evs" "taskCounter s1 = taskCounter s"
    "trace s1 = trace s @ evs" "snd out = s1\<lparr>trace := trace s1 @ delegation op f this args\<rparr>"
    by (auto simp: runs_as_def)
  then show ?thesis
    using tasks_since_start_quiet [of "evs @ delegation op f this args" "trace s"]
    by (simp add: quiet_delegation)
qed

lemma outcome_keeps_tasks:
  assumes "c = HandleCampaignWin \<or> c = HandleReflexModeEnd \<or> (\<exists>message. c = Alert message)"
  shows "taskCounter (snd (enter env this c s)) = taskCounter s \<and>
         tasks_since_start (trace (snd (enter env this c s))) = tasks_since_start (trace s)"
  by (rule quiet_step, rule outcome_runs_as [OF assms stable_taskCounter_eq]) simp_all

lemma startTimer_keeps_tasks:
  "taskCounter (snd (enter env this (StartTimer duration) s)) = taskCounter s \<and>
   tasks_since_start (trace (snd (enter env this (StartTimer duration) s)))
     = tasks_since_start (trace s)"
  using tasks_since_start_quiet [of "[OrigCall OpStartTimer this [duration]]" "trace s"]
    tasks_since_start_quiet [of "[OrigCall OpStartTimer this [duration], Install OpAlert]" "trace s"]
  by (simp add: startTimer_run split: option.splits sum.splits)

text \<open>A match hook that finds no pair of cards records nothing: its body returns at once or
  raises a \<^verbatim>\<open>TypeError\<close>.\<close>

lemma correct_body_no_pair:
  "flipped_pair env = None \<Longrightarrow>
   handleCorrectMatch_body env = throw TypeError \<or> handleCorrectMatch_body env = return ()"
  by (auto simp: flipped_pair_def handleCorrectMatch_body_def read_gameState_def bind_def
      return_def throw_def split: option.splits list.splits)

lemma incorrect_body_no_pair:
  "flipped_pair env = None \<Longrightarrow>
   handleIncorrectMatch_body env = throw TypeError \<or> handleIncorrectMatch_body env = return ()"
  by (auto simp: flipped_pair_def handleIncorrectMatch_body_def read_gameState_def bind_def
      return_def throw_def split: option.splits list.splits)

lemma idle_hook_keeps_tasks:
  fixes body :: "unit js" and label :: string and op :: opname and this :: jsthis
  defines "w \<equiv> seq (try_catch body label)
                   (bind (gets captured) (\<lambda>orig. call_original op (orig op) this []))"
  assumes "body = throw TypeError \<or> body = return ()"
  shows "taskCounter (snd (w s)) = taskCounter s \<and>
         tasks_since_start (trace (snd (w s))) = tasks_since_start (trace s)"
proof -
  have "hoare (framed s (\<lambda>s'. taskCounter s' = taskCounter s)) quiet body"
    using assms(2) by (auto simp: hoare_return hoare_throw)
  from wrapper_runs_as [where op = op and this = this and args = "[]", OF this
      stable_taskCounter_eq(1)]
  have "runs_as (\<lambda>s'. taskCounter s' = taskCounter s) quiet s op (captured s op) this [] (w s)"
    by (simp add: w_def)
  then show ?thesis by (rule quiet_step)
qed

lemma match_step:
  assumes c: "c = HandleCorrectMatch \<or> c = HandleIncorrectMatch"
  shows "(taskCounter (snd (enter env this c s)) = taskCounter s \<and>
          tasks_since_start (trace (snd (enter env this c s))) = tasks_since_start (trace s)) \<or>
         (taskCounter (snd (enter env this c s)) = Suc (taskCounter s) \<and>
          tasks_since_start (trace (snd (enter env this c s)))
            = tasks_since_start (trace s) @ [task_id (Suc (taskCounter s))])"
proof (cases "flipped_pair env")
  case None
  from c show ?thesis
  proof
    assume "c = HandleCorrectMatch"
    with idle_hook_keeps_tasks [OF correct_body_no_pair [OF None], of _ OpHandleCorrectMatch this s]
    show ?thesis by (simp add: handleCorrectMatch_hook_def)
  next
    assume "c = HandleIncorrectMatch"
    with idle_hook_keeps_tasks [OF incorrect_body_no_pair [OF None], of _ OpHandleIncorrectMatch this s]
    show ?thesis by (simp add: handleIncorrectMatch_hook_def)
  qed
next
  case (Some p)
  obtain card1 card2 where fp: "flipped_pair env = Some (card1, card2)"
    using Some by (cases p) simp
  from c show ?thesis
    by (auto simp: handleCorrectMatch_hook_run [OF fp] handleIncorrectMatch_hook_run [OF fp]
        Let_def tasks_after_record)
qed

lemma enter_task_inv: "task_inv s \<Longrightarrow> task_inv (snd (enter env this c s))"
proof (cases c)
  case (StartGame level)
  with start_establishes [of c level env this s] show ?thesis by (simp add: task_inv_def)
next
  case StartReflexMode
  with start_establishes [of c JUndefined env this s] show ?thesis by (simp add: task_inv_def)
next
  case HandleCorrectMatch
  assume "task_inv s"
  with match_step [of c env this s] HandleCorrectMatch show ?thesis
    by (auto simp: task_inv_def)
next
  case HandleIncorrectMatch
  assume "task_inv s"
  with match_step [of c env this s] HandleIncorrectMatch show ?thesis
    by (auto simp: task_inv_def)
next
  case HandleCampaignWin
  assume "task_inv s"
  with outcome_keeps_tasks [of c env this s] HandleCampaignWin show ?thesis
    by (simp add: task_inv_def)
next
  case HandleReflexModeEnd
  assume "task_inv s"
  with outcome_keeps_tasks [of c env this s] HandleReflexModeEnd show ?thesis
    by (simp add: task_inv_def)
next
  case (StartTimer duration)
  assume "task_inv s"
  with startTimer_keeps_tasks [of env this duration s] StartTimer show ?thesis
    by (simp add: task_inv_def)
next
  case (Alert message)
  assume "task_inv s"
  with outcome_keeps_tasks [of c env this s] Alert show ?thesis
    by (simp add: task_inv_def)
qed

lemma attach_task_inv: "task_inv (snd (attach host env))"
  by (simp add: task_inv_def tasks_since_start_def attach_run blank_def load_prefix_def
      load_log_def hooked_at_load_def split: option.splits)

lemma match_pair_step:
  assumes fp: "flipped_pair env = Some (card1, card2)"
    and c: "c = HandleCorrectMatch \<or> c = HandleIncorrectMatch"
  shows "taskCounter (snd (enter env this c s)) = Suc (taskCounter s) \<and>
         tasks_since_start (trace (snd (enter env this c s)))
           = tasks_since_start (trace s) @ [task_id (Suc (taskCounter s))]"
  using c
  by (auto simp: handleCorrectMatch_hook_run [OF fp] handleIncorrectMatch_hook_run [OF fp]
      Let_def tasks_after_record)

lemma task_id_1: "task_id (Suc 0) = ''task_1''"
  by (simp add: task_id_def string_of_nat.simps)

subsection \<open>Durations\<close>















lemmas exec_defs = return_def throw_def bind_def seq_def lift_def gets_def modify_def emit_def
  console_log_def try_catch_def sink_def read_gameState_def call_original_run optional_calc_def
  add_metric_of_def elapsed_run

lemma demo_win_run:
  "snd (handleCampaignWin_hook demo_env this s) =
     s\<lparr>ticks := Suc (ticks s),
       trace := trace s @
         [Sink (EndLevel (currentLevelId s) True (1000 * int (ticks s) - start0 (levelStartTime s)) (JNum 0)),
          Sink (AddRawMetric ''level'' ''1''), Sink (AddRawMetric ''turns'' ''7''),
          Sink (AddRawMetric ''xp_earned'' ''0''), Sink (AddRawMetric ''stars'' ''0''),
          Sink (AddRawMetric ''mode'' ''campaign''), Sink SubmitReport,
          ConsoleLog (''[Analytics] Completed Level: '' @ tmpl (currentLevelId s)
            @ '', Success: true, Time: ''
            @ string_of_int (1000 * int (ticks s) - start0 (levelStartTime s))
            @ ''ms, XP: 0, Stars: 0''),
          ConsoleLog ''[Analytics] Report submitted'']
         @ delegation OpHandleCampaignWin (captured s OpHandleCampaignWin) this []\<rparr>"
  by (simp add: handleCampaignWin_hook_def handleCampaignWin_body_def campaign_report_def
      exec_defs demo_env_def string_of_int_small string_of_nat.simps)

subsection \<open>Submissions\<close>

lemma submissions_append: "submissions (xs @ ys) = submissions xs + submissions ys"
  by (simp add: submissions_def)

lemma submissions_no_submit: "list_all no_submit evs \<Longrightarrow> submissions evs = 0"
  by (induction evs) (simp_all add: submissions_def no_submit_def)

lemma no_submit_no_error: "list_all no_submit evs \<Longrightarrow> list_all (\<lambda>e. \<not> is_console_error e) evs"
  by (induction evs) (simp_all add: no_submit_def)

lemma hoare_any_events:
  assumes "hoare any_state P m"
  shows "\<exists>evs. trace (snd (m s)) = trace s @ evs \<and> list_all P evs"
  using hoareD [OF assms, of s "fst (m s)" "snd (m s)"]
  by (simp add: any_state_def steps_to_def)

lemma once_bind:
  assumes m: "hoare any_state no_submit m" and f: "\<And>x. submits_once (f x)"
  shows "submits_once (bind m f)"
  unfolding submits_once_def
proof
  fix s
  obtain r s1 where ms: "m s = (r, s1)" by (cases "m s")
  from hoare_any_events [OF m, of s] ms obtain evs1 where
    evs1: "trace s1 = trace s @ evs1" "list_all no_submit evs1" by auto
  show "\<exists>evs. trace (snd (bind m f s)) = trace s @ evs \<and>
          list_all (\<lambda>e. \<not> is_console_error e) evs \<and> submissions evs \<le> 1 \<and>
          (fst (bind m f s) = Inr () \<longrightarrow> submissions evs = 1)"
  proof (cases r)
    case (Inl e)
    with ms evs1 show ?thesis
      by (intro exI [of _ evs1])
         (simp add: bind_def submissions_no_submit no_submit_no_error)
  next
    case (Inr x)
    from f [of x] obtain evs2 where
      "trace (snd (f x s1)) = trace s1 @ evs2" "list_all (\<lambda>e. \<not> is_console_error e) evs2"
      "submissions evs2 \<le> 1" "fst (f x s1) = Inr () \<longrightarrow> submissions evs2 = 1"
      unfolding submits_once_def by blast
    with ms Inr evs1 show ?thesis
      by (intro exI [of _ "evs1 @ evs2"])
         (simp add: bind_def submissions_append submissions_no_submit no_submit_no_error)
  qed
qed

lemma once_seq:
  "hoare any_state no_submit m \<Longrightarrow> submits_once k \<Longrightarrow> submits_once (seq m k)"
  by (simp add: seq_def once_bind)

lemma once_submit:
  assumes k: "hoare any_state no_submit k"
  shows "submits_once (seq (sink env SubmitReport) k)"
  unfolding submits_once_def
proof
  fix s :: state
  let ?s1 = "s\<lparr>trace := trace s @ [Sink SubmitReport]\<rparr>"
  from hoare_any_events [OF k, of ?s1] obtain evs2 where
    evs2: "trace (snd (k ?s1)) = trace s @ Sink SubmitReport # evs2" "list_all no_submit evs2"
    by auto
  show "\<exists>evs. trace (snd (seq (sink env SubmitReport) k s)) = trace s @ evs \<and>
          list_all (\<lambda>e. \<not> is_console_error e) evs \<and> submissions evs \<le> 1 \<and>
          (fst (seq (sink env SubmitReport) k s) = Inr () \<longrightarrow> submissions evs = 1)"
  proof (cases "sink_raises env (trace s) SubmitReport")
    case None
    with evs2 show ?thesis
      using submissions_no_submit [OF evs2(2)] no_submit_no_error [OF evs2(2)]
      by (intro exI [of _ "Sink SubmitReport # evs2"])
         (simp add: seq_sink_run submissions_def)
  next
    case (Some v)
    then show ?thesis
      by (intro exI [of _ "[Sink SubmitReport]"]) (simp add: seq_sink_run submissions_def)
  qed
qed

lemma once_campaign_report: "submits_once (campaign_report env level turns_v duration)"
  unfolding campaign_report_def
  by ((rule once_submit | rule once_bind once_seq | rule hoare_bind_gets | rule hoare_prims
        | rule stable_any_state(1,2) stable_intros | simp add: no_submit_def)+)

lemma once_reflex_report: "submits_once (reflex_report env turns_v duration)"
  unfolding reflex_report_def
  by ((rule once_submit | rule once_bind once_seq | rule hoare_bind_gets | rule hoare_prims
        | rule stable_any_state(1,2) stable_intros | simp add: no_submit_def)+)

lemma once_timeout_report: "submits_once (timeout_report env timeTaken)"
  unfolding timeout_report_def
  by ((rule once_submit | rule once_bind once_seq | rule hoare_bind_gets | rule hoare_prims
        | rule stable_any_state(1,2) stable_intros | simp add: no_submit_def)+)

lemma once_handleCampaignWin_body: "submits_once (handleCampaignWin_body env)"
  unfolding handleCampaignWin_body_def
  by (intro once_bind once_campaign_report hoare_read_gameState hoare_elapsed stable_any_state(2))

lemma once_handleReflexModeEnd_body: "submits_once (handleReflexModeEnd_body env)"
  unfolding handleReflexModeEnd_body_def
  by (intro once_bind once_reflex_report hoare_read_gameState hoare_elapsed stable_any_state(2))

lemma once_report_timeout: "submits_once (report_timeout env)"
  unfolding report_timeout_def
  by (intro once_bind once_timeout_report hoare_elapsed stable_any_state(2))

lemma alert_body_hit:
  "str_includes m timeout_marker \<Longrightarrow> alert_body env (JStr m) = report_timeout env"
  by (simp add: alert_body_def bind_def lift_def)

text \<open>A hook around a block that submits once: the \<^verbatim>\<open>catch\<close> logs an error exactly when the
  block did not run to its end.\<close>

lemma once_then:
  assumes body: "submits_once body"
    and k: "\<And>s1. \<exists>ds. trace (snd (k s1)) = trace s1 @ ds \<and>
             submissions ds = 0 \<and> filter is_console_error ds = []"
  shows "submissions (new_events s (snd (seq (try_catch body label) k s))) \<le> 1 \<and>
         (filter is_console_error (new_events s (snd (seq (try_catch body label) k s))) = [] \<longrightarrow>
          submissions (new_events s (snd (seq (try_catch body label) k s))) = 1)"
proof -
  obtain r s1 where run: "body s = (r, s1)" by (cases "body s")
  from body obtain evs where evs: "trace s1 = trace s @ evs"
    "list_all (\<lambda>e. \<not> is_console_error e) evs" "submissions evs \<le> 1"
    "r = Inr () \<longrightarrow> submissions evs = 1"
    unfolding submits_once_def using run by (metis fst_conv snd_conv)
  let ?s2 = "snd (try_catch body label s)"
  from k [of ?s2] obtain ds where ds: "trace (snd (k ?s2)) = trace ?s2 @ ds" "submissions ds = 0"
    "filter is_console_error ds = []" by blast
  have w: "seq (try_catch body label) k s = k ?s2"
    using try_catch_result [of body label s]
    by (cases "try_catch body label s") (simp add: seq_def bind_def)
  have noerr: "filter is_console_error evs = []"
    using evs(2) by (induction evs) simp_all
  show ?thesis
  proof (cases r)
    case (Inl e)
    with run have "?s2 = s1\<lparr>trace := trace s1 @ [ConsoleError label e]\<rparr>"
      by (simp add: try_catch_run [where body = body, OF run])
    with evs ds have "new_events s (snd (k ?s2)) = evs @ ConsoleError label e # ds"
      by (simp add: new_events_def)
    with evs ds show ?thesis
      by (simp add: w submissions_append submissions_def)
  next
    case (Inr u)
    with run have "?s2 = s1"
      by (simp add: try_catch_run [where body = body, OF run])
    with evs ds have "new_events s (snd (k ?s2)) = evs @ ds"
      by (simp add: new_events_def)
    with evs ds Inr noerr show ?thesis
      by (simp add: w submissions_append)
  qed
qed

lemma delegation_silent:
  "submissions (delegation op f this args) = 0 \<and>
   filter is_console_error (delegation op f this args) = []"
  by (simp add: delegation_def submissions_def split: option.splits)

lemma captured_delegation_silent:
  "\<exists>ds. trace (snd (bind (gets captured) (\<lambda>orig. call_original op (orig op) this args) s1))
           = trace s1 @ ds \<and>
        submissions ds = 0 \<and> filter is_console_error ds = []"
  by (intro exI [of _ "delegation op (captured s1 op) this args"])
     (simp add: bind_def gets_def call_original_run delegation_silent)

lemma attach_window_alert:
  "fst (attach host env) = Inr () \<Longrightarrow> window_alert (snd (attach host env)) = HostAlert (host OpAlert)"
  by (simp add: attach_run blank_def split: option.splits)

lemma attach_ticks: "ticks (snd (attach host env)) = 1"
  by (simp add: attach_run blank_def split: option.splits)

subsection \<open>The timeout alert on the concrete input\<close>

lemma times_up_hit: "js_includes times_up timeout_marker = Inr True"
  by (simp add: times_up_def timeout_marker_def)

lemma demo_timeout_wrapper_run:
  "seq (try_catch (alert_body demo_env times_up) label) k s =
     k (s\<lparr>ticks := Suc (ticks s),
          trace := trace s @
            [Sink (EndLevel (currentLevelId s) False
               (1000 * int (ticks s) - start0 (levelStartTime s)) (JNum 0)),
             Sink (AddRawMetric ''reason'' ''timeout''), Sink (AddRawMetric ''turns'' ''7''),
             Sink SubmitReport,
             ConsoleLog (''[Analytics] Level Failed: '' @ tmpl (currentLevelId s) @ '', Reason: Timeout''),
             ConsoleLog ''[Analytics] Report submitted'']\<rparr>)"
  by (simp add: alert_body_def times_up_hit report_timeout_def timeout_report_def exec_defs
      demo_env_def string_of_int_small string_of_nat.simps)

lemma demo_startTimer_run:
  "captured s OpStartTimer = Some demo_fn \<Longrightarrow>
   snd (startTimer_hook env this duration s) =
     s\<lparr>window_alert := AlertWrapper (window_alert s),
       trace := trace s @ [OrigCall OpStartTimer this [duration], Install OpAlert]\<rparr>"
  by (simp add: startTimer_run demo_fn_def)

subsection \<open>Calls by the host\<close>

lemma op_of_bind_params: "op_of (bind_params op args) = op"
  by (cases op) simp_all

lemma invoke_wrapped:
  assumes "wrapped s op"
  shows "invoke env this op args s = enter env (received_this s op this) (bind_params op args) s"
    and "received_this s op this = sloppy_this this"
    and "received_args s op args = args_of (bind_params op args)"
  using assms by (simp_all add: invoke_def received_this_def received_args_def)

lemma invoke_unwrapped:
  assumes "\<not> wrapped s op"
  shows "invoke env this op args s =
           (delegated (original_of s op) this args,
            s\<lparr>trace := trace s @ delegation op (original_of s op) this args\<rparr>)"
    and "received_this s op this = this"
    and "received_args s op args = args"
    and "op = OpAlert"
  using assms
  by (simp_all add: invoke_def received_this_def received_args_def wrapped_def original_of_def
      call_original_run)

lemma startTimer_wrapped: "wrapped s OpStartTimer"
  by (simp add: wrapped_def)

text \<open>Every operation but \<^verbatim>\<open>startTimer\<close>, called by the host.\<close>

lemma invoke_runs_as:
  assumes op: "op \<noteq> OpStartTimer"
    and st: "stable I" and tl: "tickless I" and rs: "resettable I"
    and startl: "\<And>lid. P (Sink (StartLevel lid))"
    and task: "\<And>lid tid label expected actual. P (Sink (RecordTask lid tid label expected actual 0 0))"
    and endl: "\<And>lid b d xp. P (Sink (EndLevel lid b d xp))"
    and metric: "\<And>key str. P (Sink (AddRawMetric key str))"
    and submit: "P (Sink SubmitReport)"
    and log: "\<And>msg. P (ConsoleLog msg)"
    and calc: "\<And>c args. P (CalcCall c args)"
    and err: "\<And>label e. P (ConsoleError label e)"
    and s: "I s"
  shows "runs_as I P s op (original_of s op) (received_this s op this) (received_args s op args)
           (invoke env this op args s)"
proof (cases "wrapped s op")
  case True
  from op have "op_of (bind_params op args) \<noteq> OpStartTimer" by (simp add: op_of_bind_params)
  from enter_runs_as [OF this st tl rs startl task endl metric submit log calc err s,
      of "received_this s op this" env]
  show ?thesis by (simp add: invoke_wrapped [OF True] op_of_bind_params)
next
  case False
  note u = invoke_unwrapped [OF False]
  show ?thesis
    unfolding runs_as_def
    by (intro exI [of _ "[]"] exI [of _ s]) (simp add: s u(1) u(2) u(3))
qed


lemma invoke_startTimer:
  "invoke env this OpStartTimer args s = startTimer_hook env (sloppy_this this) (param args 0) s"
  "received_this s OpStartTimer this = sloppy_this this"
  "received_args s OpStartTimer args = [param args 0]"
  by (simp_all add: invoke_def received_this_def received_args_def wrapped_def)

lemma invoke_original_of: "original_of (snd (invoke env this op args s)) op' = original_of s op'"
proof (cases "wrapped s op")
  case True
  then show ?thesis by (simp add: invoke_wrapped(1) enter_original_of)
next
  case False
  then show ?thesis by (simp add: invoke_unwrapped(1) original_of_def)
qed

lemma run_original_of: "original_of (run calls s) op = original_of s op"
  by (induction calls arbitrary: s) (auto simp: invoke_original_of)

lemma invoke_task_zero:
  assumes "list_all task_zero (trace s)"
  shows "list_all task_zero (trace (snd (invoke env this op args s)))"
proof (cases "wrapped s op")
  case True
  with assms show ?thesis by (simp add: invoke_wrapped(1) enter_task_zero)
next
  case False
  with assms show ?thesis
    by (simp add: invoke_unwrapped(1) delegation_def split: option.splits)
qed

lemma run_task_zero: "list_all task_zero (trace s) \<Longrightarrow> list_all task_zero (trace (run calls s))"
  by (induction calls arbitrary: s) (auto simp: invoke_task_zero)

lemma invoke_task_inv:
  assumes "task_inv s"
  shows "task_inv (snd (invoke env this op args s))"
proof (cases "wrapped s op")
  case True
  with assms show ?thesis by (simp add: invoke_wrapped(1) enter_task_inv)
next
  case False
  with assms show ?thesis
    by (simp add: invoke_unwrapped(1) task_inv_def tasks_since_start_quiet quiet_delegation)
qed

lemma run_task_inv: "task_inv s \<Longrightarrow> task_inv (run calls s)"
  by (induction calls arbitrary: s) (auto simp: invoke_task_inv)

lemma invoke_start:
  "invoke env this OpStartGame args s = startGame_hook env (sloppy_this this) (param args 0) s"
  "invoke env this OpStartReflexMode args s = startReflexMode_hook env (sloppy_this this) s"
  by (simp_all add: invoke_def wrapped_def)

lemma invoke_match:
  "invoke env this OpHandleCorrectMatch args s = handleCorrectMatch_hook env (sloppy_this this) s"
  "invoke env this OpHandleIncorrectMatch args s = handleIncorrectMatch_hook env (sloppy_this this) s"
  by (simp_all add: invoke_def wrapped_def)

lemma invoke_end:
  "invoke env this OpHandleCampaignWin args s = handleCampaignWin_hook env (sloppy_this this) s"
  "invoke env this OpHandleReflexModeEnd args s = handleReflexModeEnd_hook env (sloppy_this this) s"
  by (simp_all add: invoke_def wrapped_def)

subsection \<open>The level started last\<close>

lemma try_catch_throw_run:
  "try_catch (throw e) label s = (Inr (), s\<lparr>trace := trace s @ [ConsoleError label e]\<rparr>)"
  by (simp add: try_catch_def throw_def emit_def modify_def)


lemma raising_hook_run:
  "seq (try_catch (throw e) label)
     (bind (gets captured) (\<lambda>orig. call_original op (orig op) this args)) s =
   (delegated (captured s op) this args,
    s\<lparr>trace := trace s @ ConsoleError label e # delegation op (captured s op) this args\<rparr>)"
  by (simp add: hook_run [OF try_catch_throw_run])








subsection \<open>The duration an outcome reports\<close>


subsection \<open>Unreadable items\<close>

lemma incorrect_body_unreadable:
  assumes "gameState env = Some gs" and "flippedCards gs = Some [item1, item2]"
    and "item1 = None \<or> item2 = None"
  shows "handleIncorrectMatch_body env = throw TypeError"
  using assms
  by (auto simp: handleIncorrectMatch_body_def read_gameState_def bind_def return_def
      split: option.splits)

subsection \<open>The concrete host\<close>

lemma demo_captured: "captured (snd (attach demo_host demo_env)) op = (if op = OpAlert then None else Some demo_fn)"
  by (cases op) (simp_all add: attach_run demo_defs blank_def hooked_at_load_def)

lemma demo_attach_alert: "window_alert (snd (attach demo_host demo_env)) = HostAlert (Some demo_fn)"
  using attach_window_alert [OF demo_attach_ok] by (simp add: demo_host_def)

lemma demo_sink: "sink_raises demo_env tr c = None"
  by (simp add: demo_env_def)

lemma counting_captured: "captured (snd (attach counting_host demo_env)) OpStartGame = Some count_fn"
  by (simp add: attach_run demo_defs counting_host_def blank_def hooked_at_load_def)

subsection \<open>An error caught before the submission\<close>

lemma unfailing_console_log: "unfailing (console_log msg)"
  by (simp add: unfailing_def console_log_run)

lemma unfailing_seq:
  assumes m: "unfailing m" and k: "unfailing k"
  shows "unfailing (seq m k)"
  unfolding unfailing_def
proof
  fix s
  from m have "fst (m s) = Inr ()" by (simp add: unfailing_def)
  then obtain s1 where "m s = (Inr (), s1)" by (cases "m s") simp
  with k show "fst (seq m k s) = Inr ()" by (simp add: seq_def bind_def unfailing_def)
qed

lemma unfailing_bind_gets: "(\<And>x. unfailing (f x)) \<Longrightarrow> unfailing (bind (gets g) f)"
  by (simp add: unfailing_def bind_gets_run)

lemma unsubmitted_bind:
  assumes m: "hoare any_state no_submit m" and f: "\<And>x. unsubmitted (f x)"
  shows "unsubmitted (bind m f)"
  unfolding unsubmitted_def
proof
  fix s
  obtain r s1 where ms: "m s = (r, s1)" by (cases "m s")
  from hoare_any_events [OF m, of s] ms obtain evs1 where
    evs1: "trace s1 = trace s @ evs1" "list_all no_submit evs1" by auto
  show "\<exists>evs. trace (snd (bind m f s)) = trace s @ evs \<and>
          (fst (bind m f s) \<noteq> Inr () \<longrightarrow> submissions evs = 0)"
  proof (cases r)
    case (Inl e)
    with ms evs1 show ?thesis
      by (intro exI [of _ evs1]) (simp add: bind_def submissions_no_submit)
  next
    case (Inr x)
    from f [of x] obtain evs2 where
      "trace (snd (f x s1)) = trace s1 @ evs2" "fst (f x s1) \<noteq> Inr () \<longrightarrow> submissions evs2 = 0"
      unfolding unsubmitted_def by blast
    with ms Inr evs1 show ?thesis
      by (intro exI [of _ "evs1 @ evs2"])
         (simp add: bind_def submissions_append submissions_no_submit)
  qed
qed

lemma unsubmitted_seq:
  "hoare any_state no_submit m \<Longrightarrow> unsubmitted k \<Longrightarrow> unsubmitted (seq m k)"
  by (simp add: seq_def unsubmitted_bind)

lemma unsubmitted_submit:
  assumes safe: "\<And>tr. sink_raises env tr SubmitReport = None"
    and k: "unfailing k" and ev: "hoare any_state no_submit k"
  shows "unsubmitted (seq (sink env SubmitReport) k)"
  unfolding unsubmitted_def
proof
  fix s :: state
  let ?s1 = "s\<lparr>trace := trace s @ [Sink SubmitReport]\<rparr>"
  from hoare_any_events [OF ev, of ?s1] obtain evs2 where
    "trace (snd (k ?s1)) = trace s @ Sink SubmitReport # evs2" by auto
  moreover from k have "fst (k ?s1) = Inr ()" by (simp add: unfailing_def)
  ultimately
  show "\<exists>evs. trace (snd (seq (sink env SubmitReport) k s)) = trace s @ evs \<and>
          (fst (seq (sink env SubmitReport) k s) \<noteq> Inr () \<longrightarrow> submissions evs = 0)"
    by (intro exI [of _ "Sink SubmitReport # evs2"]) (simp add: seq_sink_run safe)
qed

lemmas unfailing_intros = unfailing_seq unfailing_bind_gets unfailing_console_log

lemma unsubmitted_campaign_report:
  assumes safe: "\<And>tr. sink_raises env tr SubmitReport = None"
  shows "unsubmitted (campaign_report env level turns_v duration)"
  unfolding campaign_report_def
  by ((rule unsubmitted_submit | rule unsubmitted_bind unsubmitted_seq | rule unfailing_intros
        | rule safe | rule hoare_bind_gets | rule hoare_prims
        | rule stable_any_state(1,2) stable_intros | simp add: no_submit_def)+)

lemma unsubmitted_reflex_report:
  assumes safe: "\<And>tr. sink_raises env tr SubmitReport = None"
  shows "unsubmitted (reflex_report env turns_v duration)"
  unfolding reflex_report_def
  by ((rule unsubmitted_submit | rule unsubmitted_bind unsubmitted_seq | rule unfailing_intros
        | rule safe | rule hoare_bind_gets | rule hoare_prims
        | rule stable_any_state(1,2) stable_intros | simp add: no_submit_def)+)

lemma unsubmitted_timeout_report:
  assumes safe: "\<And>tr. sink_raises env tr SubmitReport = None"
  shows "unsubmitted (timeout_report env timeTaken)"
  unfolding timeout_report_def
  by ((rule unsubmitted_submit | rule unsubmitted_bind unsubmitted_seq | rule unfailing_intros
        | rule safe | rule hoare_bind_gets | rule hoare_prims
        | rule stable_any_state(1,2) stable_intros | simp add: no_submit_def)+)

lemma unsubmitted_handleCampaignWin_body:
  assumes safe: "\<And>tr. sink_raises env tr SubmitReport = None"
  shows "unsubmitted (handleCampaignWin_body env)"
  unfolding handleCampaignWin_body_def
  by (intro unsubmitted_bind unsubmitted_campaign_report safe hoare_read_gameState hoare_elapsed
      stable_any_state(2))

lemma unsubmitted_handleReflexModeEnd_body:
  assumes safe: "\<And>tr. sink_raises env tr SubmitReport = None"
  shows "unsubmitted (handleReflexModeEnd_body env)"
  unfolding handleReflexModeEnd_body_def
  by (intro unsubmitted_bind unsubmitted_reflex_report safe hoare_read_gameState hoare_elapsed
      stable_any_state(2))

lemma unsubmitted_report_timeout:
  assumes safe: "\<And>tr. sink_raises env tr SubmitReport = None"
  shows "unsubmitted (report_timeout env)"
  unfolding report_timeout_def
  by (intro unsubmitted_bind unsubmitted_timeout_report safe hoare_elapsed stable_any_state(2))

text \<open>A hook around such a block: when the \<^verbatim>\<open>catch\<close> logged an error, no report was handed
  over.\<close>

lemma caught_then:
  assumes once: "submits_once body" and un: "unsubmitted body"
    and k: "\<And>s1. \<exists>ds. trace (snd (k s1)) = trace s1 @ ds \<and>
             submissions ds = 0 \<and> filter is_console_error ds = []"
    and caught: "filter is_console_error (new_events s (snd (seq (try_catch body label) k s))) \<noteq> []"
  shows "submissions (new_events s (snd (seq (try_catch body label) k s))) = 0"
proof -
  obtain r s1 where run: "body s = (r, s1)" by (cases "body s")
  from once obtain evs where evs: "trace s1 = trace s @ evs"
    "list_all (\<lambda>e. \<not> is_console_error e) evs"
    unfolding submits_once_def using run by (metis snd_conv)
  from un obtain evs' where "trace s1 = trace s @ evs'" "r \<noteq> Inr () \<longrightarrow> submissions evs' = 0"
    unfolding unsubmitted_def using run by (metis fst_conv snd_conv)
  with evs(1) have zero: "r \<noteq> Inr () \<longrightarrow> submissions evs = 0" by simp
  let ?s2 = "snd (try_catch body label s)"
  from k [of ?s2] obtain ds where ds: "trace (snd (k ?s2)) = trace ?s2 @ ds" "submissions ds = 0"
    "filter is_console_error ds = []" by blast
  have w: "seq (try_catch body label) k s = k ?s2"
    using try_catch_result [of body label s]
    by (cases "try_catch body label s") (simp add: seq_def bind_def)
  have noerr: "filter is_console_error evs = []"
    using evs(2) by (induction evs) simp_all
  show ?thesis
  proof (cases r)
    case (Inl e)
    with run have "?s2 = s1\<lparr>trace := trace s1 @ [ConsoleError label e]\<rparr>"
      by (simp add: try_catch_run [where body = body, OF run])
    with evs ds have "new_events s (snd (k ?s2)) = evs @ ConsoleError label e # ds"
      by (simp add: new_events_def)
    with zero Inl ds show ?thesis
      by (simp add: w submissions_append submissions_def)
  next
    case (Inr u)
    with run have "?s2 = s1"
      by (simp add: try_catch_run [where body = body, OF run])
    with evs ds have "new_events s (snd (k ?s2)) = evs @ ds"
      by (simp add: new_events_def)
    with caught noerr ds show ?thesis
      by (simp add: w)
  qed
qed

lemma offline_win_run:
  "snd (handleCampaignWin_hook offline_env this s) =
     s\<lparr>ticks := Suc (ticks s),
       trace := trace s @
         [Sink (EndLevel (currentLevelId s) True (1000 * int (ticks s) - start0 (levelStartTime s)) (JNum 0)),
          ConsoleError ''[Analytics] Error in handleCampaignWin hook:'' (Thrown (JStr ''offline''))]
         @ delegation OpHandleCampaignWin (captured s OpHandleCampaignWin) this []\<rparr>"
  by (simp add: handleCampaignWin_hook_def handleCampaignWin_body_def campaign_report_def
      exec_defs offline_env_def demo_env_def)

lemma offline_submit_safe: "sink_raises offline_env tr SubmitReport = None"
  by (simp add: offline_env_def)

section \<open>The claims\<close>

text \<open>
  C1, as stated: every wrapper calls the original with the original arguments and call
  context, and returns what the original returns. It fails on the arguments and on the call
  context: a wrapper hands on the parameters it declares and its own \<^verbatim>\<open>this\<close>. Called as
  \<^verbatim>\<open>startGame.call('caller', 1, 2)\<close>, the wrapper of \<^verbatim>\<open>startGame\<close> calls the original with the
  single argument 1, and with a wrapper object of the string as \<^verbatim>\<open>this\<close>; called as
  \<^verbatim>\<open>startGame()\<close>, it calls the original with one argument, \<^verbatim>\<open>undefined\<close>, and the global
  object. An original that returns \<^verbatim>\<open>arguments.length\<close> returns 2 when called with the
  arguments of the first call, and 1 through the wrapper.
\<close>

theorem surplus_argument_counterexample:
  "filter is_orig_call
     (new_events (snd (attach demo_host demo_env))
        (snd (invoke demo_env (Plain (JStr ''caller'')) OpStartGame [JNum 1, JNum 2]
               (snd (attach demo_host demo_env))))) =
     [OrigCall OpStartGame (Boxed (JStr ''caller'')) [JNum 1]] \<and>
   filter is_orig_call
     (new_events (snd (attach demo_host demo_env))
        (snd (invoke demo_env (Plain (JStr ''caller'')) OpStartGame [JNum 1, JNum 2]
               (snd (attach demo_host demo_env))))) \<noteq>
     [OrigCall OpStartGame (Plain (JStr ''caller'')) [JNum 1, JNum 2]] \<and>
   filter is_orig_call
     (new_events (snd (attach demo_host demo_env))
        (snd (invoke demo_env (Plain JUndefined) OpStartGame []
               (snd (attach demo_host demo_env))))) =
     [OrigCall OpStartGame GlobalThis [JUndefined]] \<and>
   fst (invoke demo_env (Plain (JStr ''caller'')) OpStartGame [JNum 1, JNum 2]
          (snd (attach counting_host demo_env))) = Inr (JNum 1) \<and>
   count_fn (Plain (JStr ''caller'')) [JNum 1, JNum 2] = Inr (JNum 2)"
  by (simp add: invoke_start startGame_hook_run Let_def demo_captured counting_captured
      new_events_def delegation_def delegated_def log_or_error_def demo_sink param_def count_fn_def)

text \<open>
  C1, amended: for each of the eight hooked operations, when the original exists, a call
  of the wrapper calls the original exactly once, and the outcome of the call is the outcome
  of the original (the value it returns, or what it throws), whatever the instrumentation
  does: the theorem holds for every environment, so also for those in which the game state
  is unreadable or the analytics manager throws. The original receives the parameters the
  wrapper declares: the arguments of the call when their number is the number of
  parameters, otherwise without the surplus ones and with \<^verbatim>\<open>undefined\<close> for a missing one.
  It receives the \<^verbatim>\<open>this\<close> of the wrapper: the \<^verbatim>\<open>this\<close> of the call when that is an object,
  otherwise the global object (for \<^verbatim>\<open>undefined\<close> and \<^verbatim>\<open>null\<close>) or a wrapper object of the
  primitive value. While \<^verbatim>\<open>window.alert\<close> holds no wrapper, a call of it is a call of the
  original.
\<close>

theorem wrapper_calls_original_once:
  assumes "original_of s op = Some f"
  shows "fst (invoke env this op args s) = f (received_this s op this) (received_args s op args) \<and>
         filter is_orig_call (new_events s (snd (invoke env this op args s))) =
           [OrigCall op (received_this s op this) (received_args s op args)] \<and>
         (length args = arity op \<longrightarrow> received_args s op args = args) \<and>
         (is_object this \<longrightarrow> received_this s op this = this)"
proof -
  have same_args: "received_args s op args = args" if "length args = arity op"
  proof (cases args)
    case Nil
    with that show ?thesis by (cases op) (simp_all add: received_args_def)
  next
    case (Cons a rest)
    with that show ?thesis by (cases op) (simp_all add: received_args_def param_def)
  qed
  have same_this: "received_this s op this = this" if "is_object this"
    using that by (cases this) (simp_all add: received_this_def)
  have call: "fst (invoke env this op args s) = f (received_this s op this) (received_args s op args) \<and>
         filter is_orig_call (new_events s (snd (invoke env this op args s))) =
           [OrigCall op (received_this s op this) (received_args s op args)]"
  proof (cases "op = OpStartTimer")
    case True
    with assms have "captured s OpStartTimer = Some f" by (simp add: original_of_def)
    with True show ?thesis
      by (simp add: invoke_startTimer startTimer_run new_events_def split: sum.splits)
  next
    case False
    have r: "runs_as any_state (\<lambda>e. \<not> is_orig_call e) s op (Some f) (received_this s op this)
               (received_args s op args) (invoke env this op args s)"
      using invoke_runs_as [OF False stable_any_state, where P = "\<lambda>e. \<not> is_orig_call e"
          and s = s and env = env and this = this and args = args] assms
      by (simp add: any_state_def)
    from runs_as_events [OF r] obtain evs where
      "list_all (\<lambda>e. \<not> is_orig_call e) evs"
      "new_events s (snd (invoke env this op args s)) =
         evs @ [OrigCall op (received_this s op this) (received_args s op args)]"
      by (auto simp: delegation_def)
    with runs_as_result [OF r] show ?thesis
      by (simp add: filter_none delegated_def)
  qed
  from call same_args same_this show ?thesis by blast
qed

theorem wrapper_calls_original_once_witness:
  "original_of (snd (attach demo_host demo_env)) OpHandleCampaignWin = Some demo_fn \<and>
   length ([] :: jsval list) = arity OpHandleCampaignWin \<and> is_object (ObjectRef 0) \<and>
   fst (invoke (demo_env\<lparr>gameState := None\<rparr>) (ObjectRef 0) OpHandleCampaignWin []
          (snd (attach demo_host demo_env))) = Inr (JStr ''done'') \<and>
   filter is_orig_call
     (new_events (snd (attach demo_host demo_env))
        (snd (invoke (demo_env\<lparr>gameState := None\<rparr>) (ObjectRef 0) OpHandleCampaignWin []
               (snd (attach demo_host demo_env))))) =
     [OrigCall OpHandleCampaignWin (ObjectRef 0) []]"
proof -
  have h: "original_of (snd (attach demo_host demo_env)) OpHandleCampaignWin = Some demo_fn"
    using attach_original_of [OF demo_attach_ok, of OpHandleCampaignWin]
    by (simp add: demo_host_def)
  from wrapper_calls_original_once [OF h, of "demo_env\<lparr>gameState := None\<rparr>" "ObjectRef 0" "[]"] h
  show ?thesis by (simp add: demo_fn_def)
qed

text \<open>
  C2, as stated: every outcome event submits exactly one report, never none. It fails:
  when \<^verbatim>\<open>analytics.endLevel\<close> throws, the \<^verbatim>\<open>catch\<close> of the win hook logs the error and
  \<^verbatim>\<open>submitReport\<close> is never called.
\<close>

theorem outcome_without_submission_counterexample:
  "new_events (snd (attach demo_host demo_env))
     (snd (invoke offline_env (Plain JUndefined) OpHandleCampaignWin []
        (snd (attach demo_host demo_env)))) =
     [Sink (EndLevel JNull True 1000 (JNum 0)),
      ConsoleError ''[Analytics] Error in handleCampaignWin hook:'' (Thrown (JStr ''offline'')),
      OrigCall OpHandleCampaignWin GlobalThis []] \<and>
   submissions (new_events (snd (attach demo_host demo_env))
     (snd (invoke offline_env (Plain JUndefined) OpHandleCampaignWin []
        (snd (attach demo_host demo_env))))) = 0"
  using attach_vars [of demo_host demo_env] attach_ticks [of demo_host demo_env]
  by (simp add: invoke_end offline_win_run demo_captured new_events_def delegation_def start0_def
      submissions_def)

text \<open>
  C2, amended: a campaign win, a reflex completion and, while \<^verbatim>\<open>window.alert\<close> is wrapped
  once, a timeout alert each submit at most one report, and exactly one when no error was
  caught by the hook (the host state was readable and no call of the analytics manager
  threw). An error caught before \<^verbatim>\<open>submitReport\<close> leaves the event without a report: when
  \<^verbatim>\<open>submitReport\<close> itself does not throw and the hook caught an error, no report was
  submitted. The hooks keep no record of a report having been submitted: the statement holds
  in every state, so a repeated outcome signal is an event of its own and submits again.
\<close>

theorem outcome_submits_once:
  assumes "op = OpHandleCampaignWin \<or> op = OpHandleReflexModeEnd \<or>
           op = OpAlert \<and> param args 0 = JStr m \<and> str_includes m timeout_marker \<and>
           window_alert s = AlertWrapper (HostAlert f)"
  shows "submissions (new_events s (snd (invoke env this op args s))) \<le> 1 \<and>
         (filter is_console_error (new_events s (snd (invoke env this op args s))) = [] \<longrightarrow>
          submissions (new_events s (snd (invoke env this op args s))) = 1) \<and>
         ((\<forall>tr. sink_raises env tr SubmitReport = None) \<longrightarrow>
          filter is_console_error (new_events s (snd (invoke env this op args s))) \<noteq> [] \<longrightarrow>
          submissions (new_events s (snd (invoke env this op args s))) = 0)"
  using assms
proof (elim disjE conjE)
  assume op: "op = OpHandleCampaignWin"
  let ?k = "bind (gets captured) (\<lambda>orig. call_original OpHandleCampaignWin
                 (orig OpHandleCampaignWin) (sloppy_this this) [])"
  note once = once_then [where body = "handleCampaignWin_body env" and s = s and k = ?k,
      OF once_handleCampaignWin_body captured_delegation_silent]
  note caught = caught_then [where body = "handleCampaignWin_body env" and s = s and k = ?k,
      OF once_handleCampaignWin_body unsubmitted_handleCampaignWin_body captured_delegation_silent]
  from once caught op show ?thesis
    by (simp add: invoke_end handleCampaignWin_hook_def)
next
  assume op: "op = OpHandleReflexModeEnd"
  let ?k = "bind (gets captured) (\<lambda>orig. call_original OpHandleReflexModeEnd
                 (orig OpHandleReflexModeEnd) (sloppy_this this) [])"
  note once = once_then [where body = "handleReflexModeEnd_body env" and s = s and k = ?k,
      OF once_handleReflexModeEnd_body captured_delegation_silent]
  note caught = caught_then [where body = "handleReflexModeEnd_body env" and s = s and k = ?k,
      OF once_handleReflexModeEnd_body unsubmitted_handleReflexModeEnd_body
        captured_delegation_silent]
  from once caught op show ?thesis
    by (simp add: invoke_end handleReflexModeEnd_hook_def)
next
  assume op: "op = OpAlert" and m: "param args 0 = JStr m" and hit: "str_includes m timeout_marker"
    and a: "window_alert s = AlertWrapper (HostAlert f)"
  let ?k = "call_original OpAlert f (sloppy_this this) [JStr m]"
  have silent: "\<exists>ds. trace (snd (?k s1)) = trace s1 @ ds \<and>
          submissions ds = 0 \<and> filter is_console_error ds = []" for s1
    by (intro exI [of _ "delegation OpAlert f (sloppy_this this) [JStr m]"])
       (simp add: call_original_run delegation_silent)
  note once = once_then [where body = "report_timeout env" and s = s and k = ?k,
      OF once_report_timeout silent]
  note caught = caught_then [where body = "report_timeout env" and s = s and k = ?k,
      OF once_report_timeout unsubmitted_report_timeout silent]
  from once caught op m a hit show ?thesis
    by (simp add: invoke_def wrapped_def bind_def gets_def alert_body_hit)
qed

theorem outcome_submits_once_witness:
  "submissions (new_events (snd (attach demo_host demo_env))
     (snd (invoke demo_env (Plain JUndefined) OpHandleCampaignWin []
        (snd (attach demo_host demo_env))))) = 1 \<and>
   submissions
     (new_events
        (snd (invoke demo_env (Plain JUndefined) OpHandleCampaignWin []
           (snd (attach demo_host demo_env))))
        (snd (invoke demo_env (Plain JUndefined) OpHandleCampaignWin []
           (snd (invoke demo_env (Plain JUndefined) OpHandleCampaignWin []
              (snd (attach demo_host demo_env))))))) = 1 \<and>
   submissions
     (new_events
        (run [(demo_env, Plain JUndefined, OpStartTimer, [JNum 30])] (snd (attach demo_host demo_env)))
        (snd (invoke (demo_env\<lparr>gameState := None\<rparr>) (Plain JUndefined) OpAlert [times_up]
           (run [(demo_env, Plain JUndefined, OpStartTimer, [JNum 30])]
              (snd (attach demo_host demo_env))))))
     \<le> 1 \<and>
   (\<forall>tr. sink_raises offline_env tr SubmitReport = None) \<and>
   filter is_console_error
     (new_events (snd (attach demo_host demo_env))
        (snd (invoke offline_env (Plain JUndefined) OpHandleCampaignWin []
           (snd (attach demo_host demo_env))))) \<noteq> [] \<and>
   submissions
     (new_events (snd (attach demo_host demo_env))
        (snd (invoke offline_env (Plain JUndefined) OpHandleCampaignWin []
           (snd (attach demo_host demo_env))))) = 0"
proof -
  let ?s = "snd (attach demo_host demo_env)"
  let ?t = "snd (invoke demo_env (Plain JUndefined) OpHandleCampaignWin [] ?s)"
  let ?u = "run [(demo_env, Plain JUndefined, OpStartTimer, [JNum 30])] ?s"
  let ?m = "''Time'' @ [CHR 0x27] @ ''s Up!''"
  have h: "OpHandleCampaignWin = OpHandleCampaignWin \<or> OpHandleCampaignWin = OpHandleReflexModeEnd \<or>
           OpHandleCampaignWin = OpAlert \<and> param [] 0 = JStr [] \<and> str_includes [] timeout_marker \<and>
           window_alert s = AlertWrapper (HostAlert None)" for s :: state
    by simp
  have quiet: "filter is_console_error
      (new_events s (snd (invoke demo_env (Plain JUndefined) OpHandleCampaignWin [] s))) = []"
    for s
    by (simp add: invoke_end demo_win_run new_events_def delegation_def split: option.splits)
  have loud: "filter is_console_error
      (new_events ?s (snd (invoke offline_env (Plain JUndefined) OpHandleCampaignWin [] ?s))) \<noteq> []"
    by (simp add: invoke_end offline_win_run new_events_def)
  have a: "window_alert ?u = AlertWrapper (HostAlert (Some demo_fn))"
    by (simp add: invoke_startTimer demo_startTimer_run demo_captured demo_attach_alert)
  have "str_includes ?m timeout_marker"
    using times_up_hit by (simp add: times_up_def)
  with a have h': "OpAlert = OpHandleCampaignWin \<or> OpAlert = OpHandleReflexModeEnd \<or>
           OpAlert = OpAlert \<and> param [times_up] 0 = JStr ?m \<and> str_includes ?m timeout_marker \<and>
           window_alert ?u = AlertWrapper (HostAlert (Some demo_fn))"
    by (simp add: times_up_def param_def)
  from outcome_submits_once [OF h, of ?s demo_env "Plain JUndefined"]
    outcome_submits_once [OF h, of ?t demo_env "Plain JUndefined"] quiet [of ?s] quiet [of ?t]
    outcome_submits_once [OF h', of "demo_env\<lparr>gameState := None\<rparr>" "Plain JUndefined"]
    outcome_submits_once [OF h, of ?s offline_env "Plain JUndefined"] loud offline_submit_safe
  show ?thesis by simp
qed

text \<open>
  C3, as stated: when an original is undefined at load time the hook is logged and
  skipped, and no later call of the operation raises. It fails: with
  \<^verbatim>\<open>window.startGame\<close> undefined the script loads, installs the wrapper like the
  others, and the call \<^verbatim>\<open>startGame(1)\<close> raises a \<^verbatim>\<open>TypeError\<close> to the caller.
\<close>

theorem absent_original_counterexample:
  "fst (attach bare_host demo_env) = Inr () \<and>
   bare_host OpStartGame = None \<and>
   trace (snd (attach bare_host demo_env)) = trace (snd (attach demo_host demo_env)) \<and>
   Install OpStartGame \<in> set (trace (snd (attach bare_host demo_env))) \<and>
   fst (invoke demo_env (Plain JUndefined) OpStartGame [JNum 1] (snd (attach bare_host demo_env)))
     = Inl TypeError"
proof -
  have a: "fst (attach bare_host demo_env) = Inr ()"
    by (simp add: attach_run demo_defs)
  have b: "bare_host OpStartGame = None"
    by (simp add: bare_host_def)
  with attach_original_of [OF a, of OpStartGame]
  have "captured (snd (attach bare_host demo_env)) OpStartGame = None"
    by (simp add: original_of_def)
  then have "fst (invoke demo_env (Plain JUndefined) OpStartGame [JNum 1]
                    (snd (attach bare_host demo_env))) = Inl TypeError"
    by (simp add: invoke_start startGame_hook_run Let_def delegated_def)
  moreover have "Install OpStartGame \<in> set (trace (snd (attach bare_host demo_env)))"
    by (simp add: attach_run demo_defs blank_def hooked_at_load_def)
  ultimately show ?thesis
    using a b attach_trace_host_free [of bare_host demo_env demo_host] by simp
qed

text \<open>
  C3, amended: the script has no existence check. Loading does not depend on which
  originals exist: its outcome and everything it logs and installs are the same for
  every host, and each wrapper captures what the property held, defined or not. Once the
  script is loaded, every call of an operation whose original was undefined raises a
  \<^verbatim>\<open>TypeError\<close> to the caller, at any later time.
\<close>

theorem absent_original_raises:
  assumes "fst (attach host env0) = Inr ()" and "host op = None"
  shows "fst (attach host' env0) = Inr () \<and>
         trace (snd (attach host' env0)) = trace (snd (attach host env0)) \<and>
         fst (invoke env this op args (run calls (snd (attach host env0)))) = Inl TypeError"
proof -
  let ?s = "run calls (snd (attach host env0))"
  have none: "original_of ?s op = None"
    using assms by (simp add: run_original_of attach_original_of)
  have "fst (invoke env this op args ?s) = Inl TypeError"
  proof (cases "op = OpStartTimer")
    case True
    with none show ?thesis by (simp add: invoke_startTimer startTimer_run original_of_def)
  next
    case False
    have "runs_as any_state (\<lambda>e. True) ?s op (original_of ?s op) (received_this ?s op this)
            (received_args ?s op args) (invoke env this op args ?s)"
      by (rule invoke_runs_as [OF False stable_any_state]) (simp_all add: any_state_def)
    from runs_as_result [OF this] none show ?thesis by (simp add: delegated_def)
  qed
  moreover have "fst (attach host' env0) = Inr ()"
    using assms(1) attach_outcome_host_free [of host' env0 host] by simp
  ultimately show ?thesis using attach_trace_host_free [of host' env0 host] by simp
qed

theorem absent_original_raises_witness:
  "fst (attach bare_host demo_env) = Inr () \<and> bare_host OpStartGame = None \<and>
   fst (attach demo_host demo_env) = Inr () \<and>
   trace (snd (attach demo_host demo_env)) = trace (snd (attach bare_host demo_env)) \<and>
   fst (invoke demo_env (Plain JUndefined) OpStartGame [JNum 2]
          (run [(demo_env, Plain JUndefined, OpHandleCorrectMatch, [])]
             (snd (attach bare_host demo_env))))
     = Inl TypeError"
proof -
  have h1: "fst (attach bare_host demo_env) = Inr ()"
    by (simp add: attach_run demo_defs)
  have h2: "bare_host OpStartGame = None"
    by (simp add: bare_host_def)
  from absent_original_raises [OF h1 h2, of demo_host demo_env "Plain JUndefined" "[JNum 2]"
      "[(demo_env, Plain JUndefined, OpHandleCorrectMatch, [])]"] h1 h2
  show ?thesis by simp
qed




text \<open>
  C5. At any time after the script was loaded, the task identifiers handed to the
  analytics manager since the last level start are \<^verbatim>\<open>task_1\<close>, \<^verbatim>\<open>task_2\<close>, ... up to the
  value of the task counter, in this order. A level start (campaign or reflex) sets the
  counter to 0 whatever it was, so that the first match recorded after it, with two
  flipped cards, is \<^verbatim>\<open>task_1\<close>, whatever the level played before had reached.
\<close>

theorem task_numbers_restart_at_level_start:
  assumes "gameState env3 = Some gs" and "flippedCards gs = Some [Some card1, Some card2]"
    and "op2 = OpStartGame \<or> op2 = OpStartReflexMode"
    and "op3 = OpHandleCorrectMatch \<or> op3 = OpHandleIncorrectMatch"
  shows "tasks_since_start (trace (run calls (snd (attach host env0))))
           = map task_id [1..<Suc (taskCounter (run calls (snd (attach host env0))))] \<and>
         taskCounter (snd (invoke env2 this2 op2 args2 s)) = 0 \<and>
         tasks_since_start
           (trace (run [(env2, this2, op2, args2), (env3, this3, op3, args3)] s)) = [''task_1'']"
proof -
  have "task_inv (run calls (snd (attach host env0)))"
    by (rule run_task_inv) (rule attach_task_inv)
  moreover
  let ?s2 = "snd (invoke env2 this2 op2 args2 s)"
  have w2: "invoke env2 this2 op2 args2 s = enter env2 (sloppy_this this2) (bind_params op2 args2) s"
    using assms(3) by (auto simp: invoke_def wrapped_def)
  have "bind_params op2 args2 = StartGame (param args2 0) \<or> bind_params op2 args2 = StartReflexMode"
    using assms(3) by auto
  from start_establishes [OF this, of env2 "sloppy_this this2" s]
  have s2: "taskCounter ?s2 = 0 \<and> tasks_since_start (trace ?s2) = []"
    by (simp add: w2)
  moreover
  have fp: "flipped_pair env3 = Some (card1, card2)"
    using assms(1,2) by (rule flipped_pairI)
  have w3: "invoke env3 this3 op3 args3 ?s2 = enter env3 (sloppy_this this3) (bind_params op3 args3) ?s2"
    using assms(4) by (auto simp: invoke_def wrapped_def)
  have "bind_params op3 args3 = HandleCorrectMatch \<or> bind_params op3 args3 = HandleIncorrectMatch"
    using assms(4) by auto
  from match_pair_step [OF fp this, of "sloppy_this this3" ?s2] s2
  have "tasks_since_start
          (trace (run [(env2, this2, op2, args2), (env3, this3, op3, args3)] s)) = [''task_1'']"
    by (simp add: w3 task_id_1)
  ultimately show ?thesis by (simp add: task_inv_def)
qed

theorem task_numbers_restart_at_level_start_witness:
  "tasks_since_start (trace (run [(demo_env, Plain JUndefined, OpStartGame, [JStr ''L1'']),
                                  (demo_env, Plain JUndefined, OpHandleCorrectMatch, []),
                                  (demo_env, Plain JUndefined, OpHandleIncorrectMatch, [])]
                               (snd (attach demo_host demo_env))))
     = [''task_1'', ''task_2''] \<and>
   taskCounter (snd (invoke demo_env (Plain JUndefined) OpStartGame [JStr ''L2'']
     (run [(demo_env, Plain JUndefined, OpStartGame, [JStr ''L1'']),
           (demo_env, Plain JUndefined, OpHandleCorrectMatch, []),
           (demo_env, Plain JUndefined, OpHandleIncorrectMatch, [])]
        (snd (attach demo_host demo_env))))) = 0 \<and>
   tasks_since_start (trace (run [(demo_env, Plain JUndefined, OpStartGame, [JStr ''L2'']),
                                  (demo_env, Plain JUndefined, OpHandleCorrectMatch, [])]
     (run [(demo_env, Plain JUndefined, OpStartGame, [JStr ''L1'']),
           (demo_env, Plain JUndefined, OpHandleCorrectMatch, []),
           (demo_env, Plain JUndefined, OpHandleIncorrectMatch, [])]
        (snd (attach demo_host demo_env))))) = [''task_1'']"
proof -
  let ?gs = "\<lparr>flippedCards = Some [Some (demo_card ''A'' ''A''), Some (demo_card ''A'' ''A'')],
              currentCampaignLevel = JNum 1, turns = JNum 7\<rparr>"
  let ?calls = "[(demo_env, Plain JUndefined, OpStartGame, [JStr ''L1'']),
                 (demo_env, Plain JUndefined, OpHandleCorrectMatch, []),
                 (demo_env, Plain JUndefined, OpHandleIncorrectMatch, [])]"
  have h1: "gameState demo_env = Some ?gs" by (simp add: demo_env_def)
  have h2: "flippedCards ?gs = Some [Some (demo_card ''A'' ''A''), Some (demo_card ''A'' ''A'')]"
    by simp
  have h3: "OpStartGame = OpStartGame \<or> OpStartGame = OpStartReflexMode"
    by simp
  have h4: "OpHandleCorrectMatch = OpHandleCorrectMatch \<or> OpHandleCorrectMatch = OpHandleIncorrectMatch"
    by simp
  have n: "taskCounter (run ?calls (snd (attach demo_host demo_env))) = 2"
    by (simp add: invoke_start invoke_match startGame_hook_run
        handleCorrectMatch_hook_run [OF demo_flipped_pair]
        handleIncorrectMatch_hook_run [OF demo_flipped_pair] Let_def)
  have ids: "map task_id [1..<Suc 2] = [''task_1'', ''task_2'']"
    by (simp add: task_id_def string_of_nat.simps upt_rec)
  note inst = task_numbers_restart_at_level_start [OF h1 h2 h3 h4, of ?calls demo_host demo_env
      demo_env "Plain JUndefined" "[JStr ''L2'']" "run ?calls (snd (attach demo_host demo_env))"
      "Plain JUndefined" "[]"]
  show ?thesis by (rule inst [unfolded n ids])
qed

text \<open>
  C6. When a correct match is resolved with exactly two flipped cards whose
  \<^verbatim>\<open>dataset.value\<close> is present and not empty, exactly one task record is handed to the
  analytics manager; its \<^verbatim>\<open>expected\<close> is the value of the first card and its \<^verbatim>\<open>actual\<close>
  the value of the second.
\<close>

theorem correct_match_task_record:
  assumes "gameState env = Some gs" and "flippedCards gs = Some [Some card1, Some card2]"
    and "dataset_value card1 = Some v1" and "v1 \<noteq> []"
    and "dataset_value card2 = Some v2" and "v2 \<noteq> []"
  shows "filter is_task (new_events s (snd (invoke env this OpHandleCorrectMatch args s))) =
           [Sink (RecordTask (currentLevelId s) (task_id (Suc (taskCounter s)))
                    (''Match: '' @ v1) v1 v2 0 0)]"
proof -
  have fp: "flipped_pair env = Some (card1, card2)"
    using assms(1,2) by (rule flipped_pairI)
  show ?thesis
    using assms(3-6)
    by (simp add: invoke_match handleCorrectMatch_hook_run [OF fp] new_events_def Let_def
        or_unknown_Some is_task_log_or_error filter_is_task_delegation)
qed

theorem correct_match_task_record_witness:
  "gameState demo_env = Some \<lparr>flippedCards = Some [Some (demo_card ''A'' ''A''), Some (demo_card ''A'' ''A'')],
                               currentCampaignLevel = JNum 1, turns = JNum 7\<rparr> \<and>
   dataset_value (demo_card ''A'' ''A'') = Some ''A'' \<and>
   filter is_task (new_events (snd (attach demo_host demo_env))
     (snd (invoke demo_env (Plain JUndefined) OpHandleCorrectMatch []
        (snd (attach demo_host demo_env))))) =
     [Sink (RecordTask JNull ''task_1'' ''Match: A'' ''A'' ''A'' 0 0)]"
proof -
  let ?gs = "\<lparr>flippedCards = Some [Some (demo_card ''A'' ''A''), Some (demo_card ''A'' ''A'')],
              currentCampaignLevel = JNum 1, turns = JNum 7\<rparr>"
  have h1: "gameState demo_env = Some ?gs" by (simp add: demo_env_def)
  have h2: "flippedCards ?gs = Some [Some (demo_card ''A'' ''A''), Some (demo_card ''A'' ''A'')]"
    by simp
  have h3: "dataset_value (demo_card ''A'' ''A'') = Some ''A''" by (simp add: demo_card_def)
  have h4: "''A'' \<noteq> []" by simp
  from correct_match_task_record [OF h1 h2 h3 h4 h3 h4, of "snd (attach demo_host demo_env)"
      "Plain JUndefined" "[]"]
    h1 h3 attach_vars [of demo_host demo_env]
  show ?thesis by (simp add: task_id_def string_of_nat.simps)
qed

text \<open>
  C7, as stated: missing or unreadable item data defaults to \<^verbatim>\<open>'unknown'\<close> rather than
  causing a failure. It fails for an item that cannot be read at all: when the second
  flipped item is \<^verbatim>\<open>null\<close> (or has no \<^verbatim>\<open>dataset\<close>), reading \<^verbatim>\<open>card2.dataset.value\<close> raises a
  \<^verbatim>\<open>TypeError\<close> inside the \<^verbatim>\<open>try\<close>; the \<^verbatim>\<open>catch\<close> logs it and no task record is made, with
  \<^verbatim>\<open>'unknown'\<close> or otherwise.
\<close>

theorem unreadable_item_counterexample:
  "new_events (snd (attach demo_host demo_env))
     (snd (invoke torn_env (Plain JUndefined) OpHandleIncorrectMatch []
        (snd (attach demo_host demo_env)))) =
     [ConsoleError ''[Analytics] Error in handleIncorrectMatch hook:'' TypeError,
      OrigCall OpHandleIncorrectMatch GlobalThis []] \<and>
   filter is_task (new_events (snd (attach demo_host demo_env))
     (snd (invoke torn_env (Plain JUndefined) OpHandleIncorrectMatch []
        (snd (attach demo_host demo_env))))) = []"
proof -
  let ?torn = "\<lparr>flippedCards = Some [Some (demo_card ''C'' ''A''), None],
              currentCampaignLevel = JNum 1, turns = JNum 8\<rparr>"
  have k1: "gameState torn_env = Some ?torn" by (simp add: torn_env_def)
  have k2: "flippedCards ?torn = Some [Some (demo_card ''C'' ''A''), None]" by simp
  have "handleIncorrectMatch_body torn_env = throw TypeError"
    by (rule incorrect_body_unreadable [OF k1 k2]) simp
  then show ?thesis
    by (simp add: invoke_match handleIncorrectMatch_hook_def raising_hook_run demo_captured
        new_events_def delegation_def)
qed

text \<open>
  C7, amended: when an incorrect match is resolved with exactly two flipped items that are
  card elements (each has a \<^verbatim>\<open>dataset\<close>), exactly one task record is handed to the analytics
  manager; its \<^verbatim>\<open>expected\<close> is \<^verbatim>\<open>dataset.match\<close> of the first card and its \<^verbatim>\<open>actual\<close> is
  \<^verbatim>\<open>dataset.value\<close> of the second, each replaced by \<^verbatim>\<open>'unknown'\<close> when it is absent or empty.
  When one of the two items is \<^verbatim>\<open>null\<close>, \<^verbatim>\<open>undefined\<close> or without \<^verbatim>\<open>dataset\<close>, no task record
  is made: the \<^verbatim>\<open>TypeError\<close> is caught and logged. In both cases the hook itself raises
  nothing: the outcome of the call is that of the delegation to the original.
\<close>

theorem incorrect_match_task_record:
  assumes "gameState env = Some gs" and "flippedCards gs = Some [item1, item2]"
  shows "filter is_task (new_events s (snd (invoke env this OpHandleIncorrectMatch args s))) =
           (case (item1, item2) of
              (Some card1, Some card2) \<Rightarrow>
                [Sink (RecordTask (currentLevelId s) (task_id (Suc (taskCounter s)))
                         (''Match: '' @ or_unknown (dataset_value card1))
                         (case dataset_match card1 of
                            None \<Rightarrow> ''unknown'' | Some m \<Rightarrow> if m = [] then ''unknown'' else m)
                         (case dataset_value card2 of
                            None \<Rightarrow> ''unknown'' | Some v \<Rightarrow> if v = [] then ''unknown'' else v)
                         0 0)]
            | _ \<Rightarrow> []) \<and>
         (item1 = None \<or> item2 = None \<longrightarrow>
            filter is_console_error (new_events s (snd (invoke env this OpHandleIncorrectMatch args s)))
              = [ConsoleError ''[Analytics] Error in handleIncorrectMatch hook:'' TypeError]) \<and>
         fst (invoke env this OpHandleIncorrectMatch args s) =
           delegated (captured s OpHandleIncorrectMatch) (sloppy_this this) []"
proof (cases "item1 = None \<or> item2 = None")
  case True
  from incorrect_body_unreadable [OF assms True] True show ?thesis
    by (auto simp: invoke_match handleIncorrectMatch_hook_def raising_hook_run new_events_def
        delegation_def split: option.splits)
next
  case False
  then obtain card1 card2 where items: "item1 = Some card1" "item2 = Some card2" by auto
  have fp: "flipped_pair env = Some (card1, card2)"
    using assms by (simp add: items flipped_pairI)
  show ?thesis
    by (simp add: items invoke_match handleIncorrectMatch_hook_run [OF fp] new_events_def Let_def
        or_unknown_def is_task_log_or_error filter_is_task_delegation)
qed

theorem incorrect_match_task_record_witness:
  "gameState mismatch_env =
     Some \<lparr>flippedCards = Some [Some (demo_card ''C'' ''A''), Some (demo_card ''B'' ''B'')],
           currentCampaignLevel = JNum 1, turns = JNum 8\<rparr> \<and>
   filter is_task (new_events (snd (attach demo_host demo_env))
     (snd (invoke mismatch_env (Plain JUndefined) OpHandleIncorrectMatch []
        (snd (attach demo_host demo_env))))) =
     [Sink (RecordTask JNull ''task_1'' ''Match: C'' ''A'' ''B'' 0 0)] \<and>
   fst (invoke mismatch_env (Plain JUndefined) OpHandleIncorrectMatch []
          (snd (attach demo_host demo_env))) = Inr (JStr ''done'') \<and>
   gameState torn_env =
     Some \<lparr>flippedCards = Some [Some (demo_card ''C'' ''A''), None],
           currentCampaignLevel = JNum 1, turns = JNum 8\<rparr> \<and>
   filter is_task (new_events (snd (attach demo_host demo_env))
     (snd (invoke torn_env (Plain JUndefined) OpHandleIncorrectMatch []
        (snd (attach demo_host demo_env))))) = [] \<and>
   filter is_console_error (new_events (snd (attach demo_host demo_env))
     (snd (invoke torn_env (Plain JUndefined) OpHandleIncorrectMatch []
        (snd (attach demo_host demo_env))))) =
     [ConsoleError ''[Analytics] Error in handleIncorrectMatch hook:'' TypeError] \<and>
   fst (invoke torn_env (Plain JUndefined) OpHandleIncorrectMatch []
          (snd (attach demo_host demo_env))) = Inr (JStr ''done'')"
proof -
  let ?gs = "\<lparr>flippedCards = Some [Some (demo_card ''C'' ''A''), Some (demo_card ''B'' ''B'')],
              currentCampaignLevel = JNum 1, turns = JNum 8\<rparr>"
  let ?torn = "\<lparr>flippedCards = Some [Some (demo_card ''C'' ''A''), None],
              currentCampaignLevel = JNum 1, turns = JNum 8\<rparr>"
  have h1: "gameState mismatch_env = Some ?gs" by (simp add: mismatch_env_def)
  have h2: "flippedCards ?gs = Some [Some (demo_card ''C'' ''A''), Some (demo_card ''B'' ''B'')]"
    by simp
  have k1: "gameState torn_env = Some ?torn" by (simp add: torn_env_def)
  have k2: "flippedCards ?torn = Some [Some (demo_card ''C'' ''A''), None]" by simp
  note o = demo_captured [of OpHandleIncorrectMatch]
  from incorrect_match_task_record [OF h1 h2, of "snd (attach demo_host demo_env)" "Plain JUndefined" "[]"]
    incorrect_match_task_record [OF k1 k2, of "snd (attach demo_host demo_env)" "Plain JUndefined" "[]"]
    h1 k1 o attach_vars [of demo_host demo_env]
  show ?thesis
    by (simp add: task_id_def string_of_nat.simps demo_card_def or_unknown_def delegated_def
        demo_fn_def)
qed

text \<open>
  C8. After one call of \<^verbatim>\<open>startTimer\<close> the alert \<^verbatim>\<open>Time's Up!\<close> hands over one failure
  report. After two calls of \<^verbatim>\<open>startTimer\<close> (each wraps \<^verbatim>\<open>window.alert\<close> again) the same
  single alert hands over two: \<^verbatim>\<open>endLevel\<close> and \<^verbatim>\<open>submitReport\<close> are called once per
  wrapper, while the host's \<^verbatim>\<open>alert\<close> is still called once, with the message.
\<close>

theorem alert_after_two_timers_reports_twice:
  "submissions
     (new_events
        (run [(demo_env, Plain JUndefined, OpStartTimer, [JNum 30])] (snd (attach demo_host demo_env)))
        (snd (invoke demo_env (Plain JUndefined) OpAlert [times_up]
           (run [(demo_env, Plain JUndefined, OpStartTimer, [JNum 30])]
              (snd (attach demo_host demo_env))))))
     = 1 \<and>
   submissions
     (new_events
        (run [(demo_env, Plain JUndefined, OpStartTimer, [JNum 30]),
              (demo_env, Plain JUndefined, OpStartTimer, [JNum 30])] (snd (attach demo_host demo_env)))
        (snd (invoke demo_env (Plain JUndefined) OpAlert [times_up]
           (run [(demo_env, Plain JUndefined, OpStartTimer, [JNum 30]),
                 (demo_env, Plain JUndefined, OpStartTimer, [JNum 30])]
              (snd (attach demo_host demo_env))))))
     = 2 \<and>
   filter (\<lambda>e. is_end_level e \<or> is_orig_call e)
     (new_events
        (run [(demo_env, Plain JUndefined, OpStartTimer, [JNum 30]),
              (demo_env, Plain JUndefined, OpStartTimer, [JNum 30])] (snd (attach demo_host demo_env)))
        (snd (invoke demo_env (Plain JUndefined) OpAlert [times_up]
           (run [(demo_env, Plain JUndefined, OpStartTimer, [JNum 30]),
                 (demo_env, Plain JUndefined, OpStartTimer, [JNum 30])]
              (snd (attach demo_host demo_env))))))
     = [Sink (EndLevel JNull False 1000 (JNum 0)), Sink (EndLevel JNull False 2000 (JNum 0)),
        OrigCall OpAlert GlobalThis [times_up]]"
proof -
  let ?init = "snd (attach demo_host demo_env)"
  note v = attach_vars [of demo_host demo_env] attach_ticks [of demo_host demo_env]
  have alert: "invoke env this OpAlert args s =
      call_alert env (window_alert s) (sloppy_this this) (param args 0) s"
    if "0 < alert_depth (window_alert s)" for env this args s
    using that by (simp add: invoke_def wrapped_def bind_def gets_def)
  show ?thesis
    using v
    by (simp add: invoke_startTimer demo_startTimer_run demo_captured demo_attach_alert alert
        param_def demo_timeout_wrapper_run call_original_run
        new_events_def delegation_def start0_def submissions_def)
qed

text \<open>
  C9, as stated: in every hooked operation the instrumentation runs before the original
  is called. It fails for \<^verbatim>\<open>startTimer\<close>, whose wrapper calls the original first: the call
  of the original is not the last effect of the call, the assignment to
  \<^verbatim>\<open>window.alert\<close> follows it.
\<close>

theorem startTimer_original_first_counterexample:
  "new_events (snd (attach demo_host demo_env))
     (snd (invoke demo_env (Plain JUndefined) OpStartTimer [JNum 30]
        (snd (attach demo_host demo_env))))
     = [OrigCall OpStartTimer GlobalThis [JNum 30], Install OpAlert] \<and>
   \<not> delegates_last OpStartTimer GlobalThis [JNum 30]
     (new_events (snd (attach demo_host demo_env))
        (snd (invoke demo_env (Plain JUndefined) OpStartTimer [JNum 30]
           (snd (attach demo_host demo_env)))))"
proof -
  let ?s = "snd (attach demo_host demo_env)"
  have "new_events ?s (snd (invoke demo_env (Plain JUndefined) OpStartTimer [JNum 30] ?s))
               = [OrigCall OpStartTimer GlobalThis [JNum 30], Install OpAlert]"
    by (simp add: invoke_startTimer startTimer_run demo_captured new_events_def demo_fn_def
        param_def)
  then show ?thesis by (simp add: delegates_last_def)
qed

text \<open>
  C9, amended: in every hooked operation except \<^verbatim>\<open>startTimer\<close> the call of the original
  is the last effect of the call, and all that precedes it is instrumentation (calls of
  the analytics manager, of the console, of the host's calculators).
  \<^verbatim>\<open>startTimer\<close> calls the original first; if it returns, \<^verbatim>\<open>window.alert\<close> is
  wrapped afterwards, and if it throws nothing follows. In every case the outcome of the
  call is the outcome of the original.
\<close>

theorem instrumentation_before_original:
  assumes "original_of s op = Some f"
  shows "fst (invoke env this op args s) = f (received_this s op this) (received_args s op args) \<and>
         (if op = OpStartTimer
          then delegates_first op (received_this s op this) (received_args s op args)
                 (new_events s (snd (invoke env this op args s))) \<and>
               tl (new_events s (snd (invoke env this op args s))) =
                 (case f (received_this s op this) (received_args s op args) of
                    Inl e \<Rightarrow> [] | Inr result \<Rightarrow> [Install OpAlert])
          else delegates_last op (received_this s op this) (received_args s op args)
                 (new_events s (snd (invoke env this op args s))))"
proof (cases "op = OpStartTimer")
  case True
  with assms have "captured s OpStartTimer = Some f" by (simp add: original_of_def)
  with True show ?thesis
    by (simp add: invoke_startTimer startTimer_run new_events_def delegates_first_def
        split: sum.splits)
next
  case False
  have r: "runs_as any_state instrumentation s op (Some f) (received_this s op this)
             (received_args s op args) (invoke env this op args s)"
    using invoke_runs_as [OF False stable_any_state, where P = instrumentation
        and s = s and env = env and this = this and args = args] assms
    by (simp add: any_state_def)
  from runs_as_events [OF r] obtain evs where
    "list_all instrumentation evs"
    "new_events s (snd (invoke env this op args s)) =
       evs @ [OrigCall op (received_this s op this) (received_args s op args)]"
    by (auto simp: delegation_def)
  with runs_as_result [OF r] False show ?thesis
    by (simp add: delegated_def delegates_last_def)
qed

theorem instrumentation_before_original_witness:
  "original_of (snd (attach demo_host demo_env)) OpStartGame = Some demo_fn \<and>
   fst (invoke demo_env (Plain JUndefined) OpStartGame [JNum 1] (snd (attach demo_host demo_env)))
     = Inr (JStr ''done'') \<and>
   delegates_last OpStartGame GlobalThis [JNum 1]
     (new_events (snd (attach demo_host demo_env))
        (snd (invoke demo_env (Plain JUndefined) OpStartGame [JNum 1]
           (snd (attach demo_host demo_env)))))"
proof -
  have h: "original_of (snd (attach demo_host demo_env)) OpStartGame = Some demo_fn"
    using attach_original_of [OF demo_attach_ok, of OpStartGame] by (simp add: demo_host_def)
  from instrumentation_before_original [OF h, of demo_env "Plain JUndefined" "[JNum 1]"] h
  show ?thesis
    by (simp add: demo_fn_def received_this_def received_args_def wrapped_def param_def)
qed

text \<open>
  C10. Every task record handed to the analytics manager, at any time after the script
  was loaded and for either kind of match, has \<^verbatim>\<open>timeTakenMs\<close> 0 and \<^verbatim>\<open>xpEarned\<close> 0.
\<close>

theorem task_records_carry_zero:
  assumes "Sink (RecordTask lid tid label expected actual timeTakenMs xpEarned)
             \<in> set (trace (run calls (snd (attach host env0))))"
  shows "timeTakenMs = 0 \<and> xpEarned = 0"
proof -
  have "list_all task_zero (trace (run calls (snd (attach host env0))))"
    by (rule run_task_zero) (rule attach_trace_no_task)
  with assms have "task_zero (Sink (RecordTask lid tid label expected actual timeTakenMs xpEarned))"
    by (auto simp: list_all_iff)
  then show ?thesis by simp
qed

theorem task_records_carry_zero_witness:
  "Sink (RecordTask (JStr ''campaign_level_1'') ''task_1'' ''Match: A'' ''A'' ''A'' 0 0)
     \<in> set (trace (run [(demo_env, Plain JUndefined, OpStartGame, [JNum 1]),
                          (demo_env, Plain JUndefined, OpHandleIncorrectMatch, [])]
                     (snd (attach demo_host demo_env)))) \<and>
   (0::int) = 0 \<and> (0::int) = 0"
proof -
  have h: "Sink (RecordTask (JStr ''campaign_level_1'') ''task_1'' ''Match: A'' ''A'' ''A'' 0 0)
     \<in> set (trace (run [(demo_env, Plain JUndefined, OpStartGame, [JNum 1]),
                          (demo_env, Plain JUndefined, OpHandleIncorrectMatch, [])]
                     (snd (attach demo_host demo_env))))"
    by (simp add: invoke_start invoke_match startGame_hook_run
        handleIncorrectMatch_hook_run [OF demo_flipped_pair] Let_def param_def
        task_id_def string_of_nat.simps string_of_int_small or_unknown_def demo_card_def)
  from task_records_carry_zero [OF h] h show ?thesis by simp
qed

end
